theory Spec2Isabelle
  imports Main "HOL-Library.Word" "HOL-Library.Sublist"
begin

section \<open>Python values: strings, bytes, errors\<close>

text \<open>
  A Python \<open>str\<close> is a sequence of Unicode code points, a \<open>bytes\<close> object a sequence
  of octets. String literals of the source are written with \<open>lit\<close>, bytes literals
  with \<open>blit\<close>. Every \<open>raise\<close> of the source is a constructor of \<open>error\<close>:
  the two \<open>RuntimeError\<close>s of \<open>add_riff_metadata\<close> are \<open>InvalidFormat\<close>
  ("Not a valid WAV file.") and \<open>MissingChunk\<close> ("No 'fmt ' chunk found.").
\<close>

type_synonym byte = "8 word"
type_synonym bytes = "byte list"
type_synonym pystr = "nat list"

datatype error =
    UnicodeEncodeError
  | OverflowError
  | InvalidFormat
  | MissingChunk
  | ValueError
  | KeyError

definition lit :: "string \<Rightarrow> pystr" where
  "lit s = map of_char s"

definition blit :: "string \<Rightarrow> bytes" where
  "blit s = map of_char s"

text \<open>\<open>xs[a:b]\<close> for \<open>0 \<le> a\<close>: a slice never raises, it is cut at the end of \<open>xs\<close>.\<close>

definition py_slice :: "'a list \<Rightarrow> nat \<Rightarrow> nat \<Rightarrow> 'a list" where
  "py_slice xs a b = take (b - a) (drop a xs)"

text \<open>\<open>sep.join(xs)\<close>\<close>

fun join :: "pystr \<Rightarrow> pystr list \<Rightarrow> pystr" where
  "join sep [] = []"
| "join sep [x] = x"
| "join sep (x # y # ys) = x @ sep @ join sep (y # ys)"

text \<open>
  \<open>s.encode("utf-8")\<close>: one to four octets per code point; a surrogate
  (U+D800 to U+DFFF) cannot be encoded and raises. A \<open>str\<close> holds no code point
  above U+10FFFF; the model refuses one as the codec would.
\<close>

definition utf8_char :: "nat \<Rightarrow> error + bytes" where
  "utf8_char c =
     (if c < 0x80 then Inr [of_nat c]
      else if c < 0x800 then Inr [of_nat (0xC0 + c div 64), of_nat (0x80 + c mod 64)]
      else if c < 0x10000 then
        (if 0xD800 \<le> c \<and> c \<le> 0xDFFF then Inl UnicodeEncodeError
         else Inr [of_nat (0xE0 + c div 4096), of_nat (0x80 + c div 64 mod 64),
                   of_nat (0x80 + c mod 64)])
      else if c < 0x110000 then
        Inr [of_nat (0xF0 + c div 262144), of_nat (0x80 + c div 4096 mod 64),
             of_nat (0x80 + c div 64 mod 64), of_nat (0x80 + c mod 64)]
      else Inl UnicodeEncodeError)"

fun encode_utf8 :: "pystr \<Rightarrow> error + bytes" where
  "encode_utf8 [] = Inr []"
| "encode_utf8 (c # cs) =
     (case utf8_char c of
        Inl e \<Rightarrow> Inl e
      | Inr b \<Rightarrow> (case encode_utf8 cs of Inl e \<Rightarrow> Inl e | Inr bs \<Rightarrow> Inr (b @ bs)))"

text \<open>\<open>s.encode("ascii")\<close>: one octet per code point below 128, an error otherwise.\<close>

fun encode_ascii :: "pystr \<Rightarrow> error + bytes" where
  "encode_ascii [] = Inr []"
| "encode_ascii (c # cs) =
     (if c < 128 then
        (case encode_ascii cs of Inl e \<Rightarrow> Inl e | Inr bs \<Rightarrow> Inr (of_nat c # bs))
      else Inl UnicodeEncodeError)"

text \<open>\<open>n.to_bytes(4, "little")\<close> raises \<open>OverflowError\<close> when \<open>n\<close> needs more than 4 octets.\<close>

definition to_bytes4_little :: "nat \<Rightarrow> error + bytes" where
  "to_bytes4_little n =
     (if n < 2 ^ 32 then
        Inr [of_nat (n mod 256), of_nat (n div 256 mod 256),
             of_nat (n div 65536 mod 256), of_nat (n div 16777216 mod 256)]
      else Inl OverflowError)"

text \<open>\<open>int.from_bytes(bs, "little")\<close>\<close>

fun from_bytes_little :: "bytes \<Rightarrow> nat" where
  "from_bytes_little [] = 0"
| "from_bytes_little (b # bs) = unat b + 256 * from_bytes_little bs"

section \<open>embed.py: the RIFF INFO entries and the LIST chunk\<close>

text \<open>
  \<open>encode_riff_info(tag, value)\<close>, lines 8 to 14 of embed.py. The value is encoded
  first, padded to an even length, and \<open>size\<close> is read from the padded bytes.
\<close>

definition encode_riff_info :: "pystr \<Rightarrow> pystr \<Rightarrow> error + bytes" where
  "encode_riff_info tag v =
     (case encode_utf8 v of
        Inl e \<Rightarrow> Inl e
      | Inr value_bytes0 \<Rightarrow>
          (let value_bytes =
                 (if length value_bytes0 mod 2 = 1 then value_bytes0 @ [0] else value_bytes0);
               sz = length value_bytes
           in case encode_ascii tag of
                Inl e \<Rightarrow> Inl e
              | Inr tag_bytes \<Rightarrow>
                  (case to_bytes4_little sz of
                     Inl e \<Rightarrow> Inl e
                   | Inr sz_bytes \<Rightarrow> Inr (tag_bytes @ sz_bytes @ value_bytes))))"

text \<open>
  \<open>metadata_dict\<close> maps field names to strings. The statement
  \<open>metadata_bytes += encode_riff_info(tag, value)\<close> is \<open>append_entry\<close>: an error of
  an earlier statement, or of this encoding, ends the function.
\<close>

type_synonym metadata_dict = "pystr \<rightharpoonup> pystr"

definition append_entry :: "error + bytes \<Rightarrow> pystr \<Rightarrow> pystr \<Rightarrow> error + bytes" where
  "append_entry acc tag v =
     (case acc of
        Inl e \<Rightarrow> Inl e
      | Inr metadata_bytes \<Rightarrow>
          (case encode_riff_info tag v of
             Inl e \<Rightarrow> Inl e
           | Inr entry \<Rightarrow> Inr (metadata_bytes @ entry)))"

text \<open>The list \<open>comments\<close>, lines 24 to 30: one f-string per key that is in the dict.\<close>

definition comments :: "metadata_dict \<Rightarrow> pystr list" where
  "comments metadata_dict =
     (case metadata_dict (lit ''BPM'') of None \<Rightarrow> [] | Some v \<Rightarrow> [lit ''BPM: '' @ v]) @
     (case metadata_dict (lit ''Key'') of None \<Rightarrow> [] | Some v \<Rightarrow> [lit ''Key: '' @ v]) @
     (case metadata_dict (lit ''Publishers'') of
        None \<Rightarrow> [] | Some v \<Rightarrow> [lit ''Publishers: '' @ v])"

text \<open>Lines 17 to 33: the entries, appended in the order of the source.\<close>

definition riff_metadata_bytes :: "metadata_dict \<Rightarrow> error + bytes" where
  "riff_metadata_bytes metadata_dict =
     (let mb0 = Inr [];
          mb1 = (case metadata_dict (lit ''Track Title'') of
                   None \<Rightarrow> mb0 | Some v \<Rightarrow> append_entry mb0 (lit ''INAM'') v);
          mb2 = (case metadata_dict (lit ''Composers'') of
                   None \<Rightarrow> mb1 | Some v \<Rightarrow> append_entry mb1 (lit ''IART'') v);
          mb3 = (case metadata_dict (lit ''Source Program'') of
                   None \<Rightarrow> mb2 | Some v \<Rightarrow> append_entry mb2 (lit ''IALB'') v)
      in if comments metadata_dict \<noteq> []
         then append_entry mb3 (lit ''ICMT'') (join (lit '' | '') (comments metadata_dict))
         else mb3)"

text \<open>Lines 36 to 38: \<open>"LIST" + size + "INFO" + metadata_bytes\<close>.\<close>

definition build_list_chunk :: "metadata_dict \<Rightarrow> error + bytes" where
  "build_list_chunk metadata_dict =
     (case riff_metadata_bytes metadata_dict of
        Inl e \<Rightarrow> Inl e
      | Inr metadata_bytes \<Rightarrow>
          (let list_chunk_data = blit ''INFO'' @ metadata_bytes;
               list_chunk_size = length list_chunk_data
           in case to_bytes4_little list_chunk_size of
                Inl e \<Rightarrow> Inl e
              | Inr sz_bytes \<Rightarrow> Inr (blit ''LIST'' @ sz_bytes @ list_chunk_data)))"

section \<open>embed.py: locating the fmt chunk and inserting the LIST chunk\<close>

text \<open>
  The \<open>while\<close> loop of lines 49 to 57. It returns \<open>fmt_end\<close>, or \<open>None\<close> when the
  loop ends with \<open>fmt_end\<close> still \<open>None\<close>. Each round moves \<open>pos\<close> forward by at
  least 8, so the loop ends.
\<close>

function find_fmt_end :: "bytes \<Rightarrow> nat \<Rightarrow> nat option" where
  "find_fmt_end wav_data pos =
     (if pos + 8 \<le> length wav_data then
        (let chunk_id = py_slice wav_data pos (pos + 4);
             chunk_size = from_bytes_little (py_slice wav_data (pos + 4) (pos + 8))
         in if chunk_id = blit ''fmt '' then Some (pos + 8 + chunk_size)
            else find_fmt_end wav_data (pos + 8 + chunk_size))
      else None)"
  by pat_completeness auto
termination
  by (relation "measure (\<lambda>(wav_data, pos). length wav_data - pos)") auto

declare find_fmt_end.simps [simp del]

text \<open>
  Lines 44 to 62 on the bytes read from the input file and the chunk built before:
  the header check, the scan, and the bytes written to the output file.
\<close>

definition insert_after_fmt :: "bytes \<Rightarrow> bytes \<Rightarrow> error + bytes" where
  "insert_after_fmt wav_data list_chunk =
     (if py_slice wav_data 0 4 \<noteq> blit ''RIFF'' \<or> py_slice wav_data 8 12 \<noteq> blit ''WAVE''
      then Inl InvalidFormat
      else (case find_fmt_end wav_data 12 of
              None \<Rightarrow> Inl MissingChunk
            | Some fmt_end \<Rightarrow>
                Inr (take fmt_end wav_data @ list_chunk @ drop fmt_end wav_data)))"

text \<open>
  \<open>add_riff_metadata\<close>: the chunk is built before the file is read, so an error of
  the encoding comes before the checks of the file.
\<close>

definition add_riff_metadata :: "bytes \<Rightarrow> metadata_dict \<Rightarrow> error + bytes" where
  "add_riff_metadata wav_data metadata_dict =
     (case build_list_chunk metadata_dict of
        Inl e \<Rightarrow> Inl e
      | Inr list_chunk \<Rightarrow> insert_after_fmt wav_data list_chunk)"

section \<open>metadata.py: decoding spreadsheet rows\<close>

text \<open>
  A cell is \<open>None\<close> or a value; \<open>Some s\<close> is a cell whose \<open>str(value)\<close> is \<open>s\<close>
  (for a text cell, the text itself). \<open>str.strip()\<close> removes the white space of
  \<open>str.isspace\<close> at both ends.
\<close>

type_synonym cell = "pystr option"

definition is_space :: "nat \<Rightarrow> bool" where
  "is_space c =
     ((9 \<le> c \<and> c \<le> 13) \<or> (28 \<le> c \<and> c \<le> 32) \<or> c = 133 \<or> c = 160 \<or> c = 5760 \<or>
      (8192 \<le> c \<and> c \<le> 8202) \<or> c = 8232 \<or> c = 8233 \<or> c = 8239 \<or> c = 8287 \<or>
      c = 12288)"

definition strip :: "pystr \<Rightarrow> pystr" where
  "strip s = rev (dropWhile is_space (rev (dropWhile is_space s)))"

text \<open>\<open>_safe_get(row, index)\<close> with the default \<open>''\<close>: an index out of range gives the default.\<close>

definition safe_get :: "cell list \<Rightarrow> nat \<Rightarrow> pystr" where
  "safe_get row index =
     (if index < length row
      then (case row ! index of None \<Rightarrow> [] | Some v \<Rightarrow> strip v)
      else [])"

text \<open>
  \<open>_format_writer\<close>, lines 161 to 177. A string is true when it is not empty;
  \<open>filter(None, xs)\<close> keeps the true ones.
\<close>

definition format_writer ::
  "pystr \<Rightarrow> pystr \<Rightarrow> pystr \<Rightarrow> pystr \<Rightarrow> pystr \<Rightarrow> pystr \<Rightarrow> pystr option" where
  "format_writer first middle last' pro cae share =
     (if \<not> (first \<noteq> [] \<or> middle \<noteq> [] \<or> last' \<noteq> []) then None
      else
        (let c0 = [];
             c1 = (if first \<noteq> [] \<or> middle \<noteq> [] \<or> last' \<noteq> []
                   then c0 @ [strip (join (lit '' '')
                                 (filter (\<lambda>s. s \<noteq> []) [first, middle, last']))]
                   else c0);
             c2 = (if pro \<noteq> [] then c1 @ [lit ''('' @ pro @ lit '')''] else c1);
             c3 = (if cae \<noteq> [] then c2 @ [lit ''['' @ cae @ lit '']''] else c2);
             components = (if share \<noteq> [] then c3 @ [share @ lit ''%''] else c3)
         in if components \<noteq> [] then Some (join (lit '' '') components) else None))"

text \<open>\<open>_format_publisher\<close>, lines 180 to 193.\<close>

definition format_publisher :: "pystr \<Rightarrow> pystr \<Rightarrow> pystr \<Rightarrow> pystr \<Rightarrow> pystr option" where
  "format_publisher name pro cae share =
     (if name = [] then None
      else
        (let c1 = [name];
             c2 = (if pro \<noteq> [] then c1 @ [lit ''('' @ pro @ lit '')''] else c1);
             c3 = (if cae \<noteq> [] then c2 @ [lit ''['' @ cae @ lit '']''] else c2);
             components = (if share \<noteq> [] then c3 @ [share @ lit ''%''] else c3)
         in if components \<noteq> [] then Some (join (lit '' '') components) else None))"

text \<open>
  \<open>_parse_writers\<close> and \<open>_parse_publishers\<close>: the loop over \<open>range(5)\<close> with its
  \<open>break\<close>; \<open>if writer:\<close> appends a result that is neither \<open>None\<close> nor empty.
\<close>

fun writers_loop :: "cell list \<Rightarrow> nat \<Rightarrow> nat list \<Rightarrow> pystr list \<Rightarrow> pystr list" where
  "writers_loop row start_idx [] writers = writers"
| "writers_loop row start_idx (i # rest) writers =
     (let offset = start_idx + i * 10
      in if offset + 5 \<ge> length row then writers
         else
           (let writer = format_writer (safe_get row offset) (safe_get row (offset + 1))
                           (safe_get row (offset + 2)) (safe_get row (offset + 3))
                           (safe_get row (offset + 4)) (safe_get row (offset + 5))
            in writers_loop row start_idx rest
                 (case writer of
                    None \<Rightarrow> writers
                  | Some w \<Rightarrow> if w \<noteq> [] then writers @ [w] else writers)))"

definition parse_writers :: "cell list \<Rightarrow> nat \<Rightarrow> pystr list" where
  "parse_writers row start_idx = writers_loop row start_idx [0..<5] []"

fun publishers_loop :: "cell list \<Rightarrow> nat \<Rightarrow> nat list \<Rightarrow> pystr list \<Rightarrow> pystr list" where
  "publishers_loop row start_idx [] publishers = publishers"
| "publishers_loop row start_idx (i # rest) publishers =
     (let offset = start_idx + i * 10
      in if offset + 3 \<ge> length row then publishers
         else
           (let publisher = format_publisher (safe_get row offset) (safe_get row (offset + 1))
                              (safe_get row (offset + 2)) (safe_get row (offset + 3))
            in publishers_loop row start_idx rest
                 (case publisher of
                    None \<Rightarrow> publishers
                  | Some p \<Rightarrow> if p \<noteq> [] then publishers @ [p] else publishers)))"

definition parse_publishers :: "cell list \<Rightarrow> nat \<Rightarrow> pystr list" where
  "parse_publishers row start_idx = publishers_loop row start_idx [0..<5] []"

record TrackMetadata =
  filename_from_data :: pystr
  track_title :: pystr
  source_program :: pystr
  bpm :: pystr
  key :: pystr
  writers :: "pystr list"
  publishers :: "pystr list"

text \<open>The record built from a row, the same in \<open>_parse_excel\<close> (lines 45 to 53) and \<open>_parse_csv\<close> (lines 90 to 98).\<close>

definition row_metadata :: "cell list \<Rightarrow> TrackMetadata" where
  "row_metadata row =
     \<lparr> filename_from_data = safe_get row 0,
       track_title = safe_get row 1,
       source_program = safe_get row 2,
       bpm = safe_get row 4,
       key = safe_get row 5,
       writers = parse_writers row 12,
       publishers = parse_publishers row 18 \<rparr>"

text \<open>
  The loop over the rows of one sheet or of the CSV reader: a row of fewer than 34
  cells is passed over (\<open>continue\<close>), any other row appends its record.
\<close>

fun rows_loop :: "cell list list \<Rightarrow> TrackMetadata list \<Rightarrow> TrackMetadata list" where
  "rows_loop [] metadata_list = metadata_list"
| "rows_loop (row # rest) metadata_list =
     (if length row < 34 then rows_loop rest metadata_list
      else rows_loop rest (metadata_list @ [row_metadata row]))"

text \<open>\<open>_parse_excel\<close>: every row of every sheet, in the order of \<open>wb.sheetnames\<close>.\<close>

fun sheets_loop :: "cell list list list \<Rightarrow> TrackMetadata list \<Rightarrow> TrackMetadata list" where
  "sheets_loop [] metadata_list = metadata_list"
| "sheets_loop (sheet # rest) metadata_list =
     sheets_loop rest (rows_loop sheet metadata_list)"

definition parse_excel :: "cell list list list \<Rightarrow> TrackMetadata list" where
  "parse_excel sheets = sheets_loop sheets []"

text \<open>
  \<open>_parse_csv\<close> on the rows the reader yields, each a list of strings.
  \<open>next(reader)\<close> passes the header row over; on an empty file it raises, and the
  \<open>except\<close> clause turns that into \<open>ValueError\<close>.
\<close>

definition parse_csv :: "pystr list list \<Rightarrow> error + TrackMetadata list" where
  "parse_csv reader =
     (case reader of
        [] \<Rightarrow> Inl ValueError
      | header # rows \<Rightarrow> Inr (rows_loop (map (map Some) rows) []))"

section \<open>main.py: matching records to file names\<close>

text \<open>\<open>pattern in audio_filename\<close>: the pattern occurs as a contiguous run.\<close>

fun contains :: "pystr \<Rightarrow> pystr \<Rightarrow> bool" where
  "contains pat [] = (pat = [])"
| "contains pat (c # cs) = (prefix pat (c # cs) \<or> contains pat cs)"

text \<open>
  \<open>str.lower()\<close> is Python's Unicode case mapping; the functions below take it as
  the parameter \<open>lower\<close>. \<open>ascii_lower\<close> is that mapping on strings whose cased
  letters are ASCII.
\<close>

definition ascii_lower :: "pystr \<Rightarrow> pystr" where
  "ascii_lower s = map (\<lambda>c. if 65 \<le> c \<and> c \<le> 90 then c + 32 else c) s"

text \<open>An entry of \<open>st.session_state.wav_files\<close> is a dict from column names to strings.\<close>

type_synonym file_info = "pystr \<rightharpoonup> pystr"

text \<open>Lines 120 to 128: the reset of the six metadata fields.\<close>

definition reset_fields :: "file_info \<Rightarrow> file_info" where
  "reset_fields new_entry =
     new_entry(lit ''Track Title'' \<mapsto> [], lit ''Source Program'' \<mapsto> [], lit ''BPM'' \<mapsto> [],
               lit ''Key'' \<mapsto> [], lit ''Composers'' \<mapsto> [], lit ''Publishers'' \<mapsto> [])"

text \<open>Lines 130 to 142: the first record whose pattern occurs in the name fills the fields.\<close>

fun find_by_pattern ::
  "(pystr \<Rightarrow> pystr) \<Rightarrow> TrackMetadata list \<Rightarrow> pystr \<Rightarrow> file_info \<Rightarrow> file_info" where
  "find_by_pattern lower [] audio_filename new_entry = new_entry"
| "find_by_pattern lower (m # rest) audio_filename new_entry =
     (let pattern = lower (track_title m) @ lit ''_''
      in if contains pattern audio_filename
         then new_entry(lit ''Track Title'' \<mapsto> track_title m,
                        lit ''Source Program'' \<mapsto> source_program m,
                        lit ''BPM'' \<mapsto> bpm m,
                        lit ''Key'' \<mapsto> key m,
                        lit ''Composers'' \<mapsto> join (lit '', '') (writers m),
                        lit ''Publishers'' \<mapsto> join (lit '', '') (publishers m))
         else find_by_pattern lower rest audio_filename new_entry)"

text \<open>Lines 144 to 148: the first record whose file name occurs in the name.\<close>

fun find_by_filename ::
  "(pystr \<Rightarrow> pystr) \<Rightarrow> TrackMetadata list \<Rightarrow> pystr \<Rightarrow> file_info \<Rightarrow> file_info" where
  "find_by_filename lower [] audio_filename new_entry = new_entry"
| "find_by_filename lower (m # rest) audio_filename new_entry =
     (if contains (lower (filename_from_data m)) audio_filename
      then new_entry(lit ''Filename From Data'' \<mapsto> filename_from_data m)
      else find_by_filename lower rest audio_filename new_entry)"

text \<open>
  The body of the loop over the files, lines 117 to 150. An entry with no
  \<open>"Uploaded Audio"\<close> key raises \<open>KeyError\<close>.
\<close>

definition update_entry ::
  "(pystr \<Rightarrow> pystr) \<Rightarrow> TrackMetadata list \<Rightarrow> file_info \<Rightarrow> error + file_info" where
  "update_entry lower metadata_list file_info =
     (case file_info (lit ''Uploaded Audio'') of
        None \<Rightarrow> Inl KeyError
      | Some uploaded \<Rightarrow>
          (let audio_filename = lower uploaded;
               new_entry = reset_fields file_info;
               new_entry = find_by_pattern lower metadata_list audio_filename new_entry
           in Inr (find_by_filename lower metadata_list audio_filename new_entry)))"

section \<open>Definitions used to state the properties\<close>

text \<open>
  The entries of the INFO list as (tag, value) pairs, encoded one after the other.
  \<open>info_entries\<close> has an entry for every key that is in the dict;
  \<open>spec_info_entries\<close> follows the words of the specification, which asks for a
  field that is present and not empty.
\<close>

fun encode_entries :: "(pystr \<times> pystr) list \<Rightarrow> error + bytes" where
  "encode_entries [] = Inr []"
| "encode_entries ((tag, v) # rest) =
     (case encode_riff_info tag v of
        Inl e \<Rightarrow> Inl e
      | Inr entry \<Rightarrow>
          (case encode_entries rest of Inl e \<Rightarrow> Inl e | Inr bs \<Rightarrow> Inr (entry @ bs)))"

definition field_entry :: "metadata_dict \<Rightarrow> pystr \<Rightarrow> pystr \<Rightarrow> (pystr \<times> pystr) list" where
  "field_entry metadata_dict field tag =
     (case metadata_dict field of None \<Rightarrow> [] | Some v \<Rightarrow> [(tag, v)])"

definition labelled :: "metadata_dict \<Rightarrow> pystr \<Rightarrow> pystr list" where
  "labelled metadata_dict field =
     (case metadata_dict field of None \<Rightarrow> [] | Some v \<Rightarrow> [field @ lit '': '' @ v])"

definition comment_entry :: "metadata_dict \<Rightarrow> (pystr \<times> pystr) list" where
  "comment_entry metadata_dict =
     (let present = labelled metadata_dict (lit ''BPM'') @ labelled metadata_dict (lit ''Key'') @
                    labelled metadata_dict (lit ''Publishers'')
      in if present = [] then [] else [(lit ''ICMT'', join (lit '' | '') present)])"

definition info_entries :: "metadata_dict \<Rightarrow> (pystr \<times> pystr) list" where
  "info_entries metadata_dict =
     field_entry metadata_dict (lit ''Track Title'') (lit ''INAM'') @
     field_entry metadata_dict (lit ''Composers'') (lit ''IART'') @
     field_entry metadata_dict (lit ''Source Program'') (lit ''IALB'') @
     comment_entry metadata_dict"

definition spec_field_entry :: "metadata_dict \<Rightarrow> pystr \<Rightarrow> pystr \<Rightarrow> (pystr \<times> pystr) list" where
  "spec_field_entry metadata_dict field tag =
     (case metadata_dict field of
        None \<Rightarrow> []
      | Some v \<Rightarrow> if v = [] then [] else [(tag, v)])"

definition spec_info_entries :: "metadata_dict \<Rightarrow> (pystr \<times> pystr) list" where
  "spec_info_entries metadata_dict =
     spec_field_entry metadata_dict (lit ''Track Title'') (lit ''INAM'') @
     spec_field_entry metadata_dict (lit ''Composers'') (lit ''IART'') @
     spec_field_entry metadata_dict (lit ''Source Program'') (lit ''IALB'') @
     comment_entry metadata_dict"

text \<open>
  The mappings for which the builder is shown to return a chunk: every value under
  one of the six field names can be encoded (no surrogate, no code point above
  U+10FFFF) and has fewer than \<open>2 ^ 24\<close> code points, so that every size fits in 4
  octets.
\<close>

definition encodable :: "pystr \<Rightarrow> bool" where
  "encodable s = list_all (\<lambda>c. c < 0x110000 \<and> \<not> (0xD800 \<le> c \<and> c \<le> 0xDFFF)) s"

definition field_names :: "pystr list" where
  "field_names = [lit ''Track Title'', lit ''Composers'', lit ''Source Program'',
                  lit ''BPM'', lit ''Key'', lit ''Publishers'']"

definition encodable_dict :: "metadata_dict \<Rightarrow> bool" where
  "encodable_dict metadata_dict =
     list_all (\<lambda>k. case metadata_dict k of
                      None \<Rightarrow> True
                    | Some v \<Rightarrow> encodable v \<and> length v < 2 ^ 24) field_names"

text \<open>
  A WAV buffer of 54 octets whose first chunk, \<open>JUNK\<close>, has the odd size 1 and is
  followed by its pad octet; the \<open>fmt\<close> chunk starts at offset 22 and ends at 46.
\<close>

definition odd_chunk_wav :: bytes where
  "odd_chunk_wav =
     blit ''RIFF'' @ [46, 0, 0, 0] @ blit ''WAVE'' @
     blit ''JUNK'' @ [1, 0, 0, 0] @ [170] @ [0] @
     blit ''fmt '' @ [16, 0, 0, 0] @
       [1, 0, 1, 0, 68, 172, 0, 0, 136, 88, 1, 0, 2, 0, 16, 0] @
     blit ''data'' @ [0, 0, 0, 0]"

text \<open>
  The same buffer with a \<open>JUNK\<close> chunk of the even size 2 and no pad octet; the
  \<open>fmt\<close> chunk again starts at offset 22 and ends at 46.
\<close>

definition even_chunk_wav :: bytes where
  "even_chunk_wav =
     blit ''RIFF'' @ [46, 0, 0, 0] @ blit ''WAVE'' @
     blit ''JUNK'' @ [2, 0, 0, 0] @ [170, 187] @
     blit ''fmt '' @ [16, 0, 0, 0] @
       [1, 0, 1, 0, 68, 172, 0, 0, 136, 88, 1, 0, 2, 0, 16, 0] @
     blit ''data'' @ [0, 0, 0, 0]"

text \<open>A part of a formatted credit that is left out when its field is empty.\<close>

definition opt_part :: "pystr \<Rightarrow> pystr \<Rightarrow> pystr \<Rightarrow> pystr list" where
  "opt_part before field after = (if field = [] then [] else [before @ field @ after])"

text \<open>The two tests of the match loops, as predicates on a record.\<close>

definition title_matches :: "(pystr \<Rightarrow> pystr) \<Rightarrow> pystr \<Rightarrow> TrackMetadata \<Rightarrow> bool" where
  "title_matches lower audio_filename m =
     contains (lower (track_title m) @ lit ''_'') audio_filename"

definition filename_matches :: "(pystr \<Rightarrow> pystr) \<Rightarrow> pystr \<Rightarrow> TrackMetadata \<Rightarrow> bool" where
  "filename_matches lower audio_filename m =
     contains (lower (filename_from_data m)) audio_filename"

text \<open>The name part of a writer credit: the name fields that are not empty, joined by spaces.\<close>

definition writer_name :: "pystr \<Rightarrow> pystr \<Rightarrow> pystr \<Rightarrow> pystr" where
  "writer_name first middle last' =
     strip (join (lit '' '') (filter (\<lambda>s. s \<noteq> []) [first, middle, last']))"

text \<open>
  The six metadata fields of an entry: filled from a record, all blank, or equal to
  those of a record.
\<close>

definition fill_fields :: "TrackMetadata \<Rightarrow> file_info \<Rightarrow> file_info" where
  "fill_fields m new_entry =
     new_entry(lit ''Track Title'' \<mapsto> track_title m,
               lit ''Source Program'' \<mapsto> source_program m,
               lit ''BPM'' \<mapsto> bpm m,
               lit ''Key'' \<mapsto> key m,
               lit ''Composers'' \<mapsto> join (lit '', '') (writers m),
               lit ''Publishers'' \<mapsto> join (lit '', '') (publishers m))"

definition blank_fields :: "file_info \<Rightarrow> bool" where
  "blank_fields e \<longleftrightarrow>
     e (lit ''Track Title'') = Some [] \<and> e (lit ''Source Program'') = Some [] \<and>
     e (lit ''BPM'') = Some [] \<and> e (lit ''Key'') = Some [] \<and>
     e (lit ''Composers'') = Some [] \<and> e (lit ''Publishers'') = Some []"

definition fields_of :: "TrackMetadata \<Rightarrow> file_info \<Rightarrow> bool" where
  "fields_of m e \<longleftrightarrow>
     e (lit ''Track Title'') = Some (track_title m) \<and>
     e (lit ''Source Program'') = Some (source_program m) \<and>
     e (lit ''BPM'') = Some (bpm m) \<and> e (lit ''Key'') = Some (key m) \<and>
     e (lit ''Composers'') = Some (join (lit '', '') (writers m)) \<and>
     e (lit ''Publishers'') = Some (join (lit '', '') (publishers m))"

text \<open>
  Three records and a file entry for the examples: the file name of the first record
  and the title of the second both occur in "song_master.wav"; the third record has an
  empty title and an empty file name.
\<close>

definition record_by_name :: TrackMetadata where
  "record_by_name =
     \<lparr> filename_from_data = lit ''song_master.wav'', track_title = lit ''Other'',
       source_program = lit ''Show A'', bpm = lit ''90'', key = lit ''C'',
       writers = [], publishers = [] \<rparr>"

definition record_by_title :: TrackMetadata where
  "record_by_title =
     \<lparr> filename_from_data = lit ''unrelated.wav'', track_title = lit ''Song'',
       source_program = lit ''Show B'', bpm = lit ''120'', key = lit ''Am'',
       writers = [lit ''Jane (ASCAP) 50%'', lit ''Joe (BMI) 50%''],
       publishers = [lit ''Acme Pub [123]''] \<rparr>"

definition blank_record :: TrackMetadata where
  "blank_record =
     \<lparr> filename_from_data = [], track_title = [],
       source_program = lit ''Show C'', bpm = lit ''100'', key = lit ''G'',
       writers = [], publishers = [] \<rparr>"

definition song_file :: file_info where
  "song_file =
     [lit ''File Path'' \<mapsto> lit ''/in/Song_Master.wav'',
      lit ''Uploaded Audio'' \<mapsto> lit ''Song_Master.wav'',
      lit ''Filename From Data'' \<mapsto> [], lit ''Track Title'' \<mapsto> [],
      lit ''Source Program'' \<mapsto> [], lit ''BPM'' \<mapsto> [], lit ''Key'' \<mapsto> [],
      lit ''Composers'' \<mapsto> [], lit ''Publishers'' \<mapsto> []]"

section \<open>Bytes and sizes\<close>

lemma to_bytes4_little_Inr:
  assumes "to_bytes4_little n = Inr bs"
  shows "length bs = 4" and "from_bytes_little bs = n" and "n < 2 ^ 32"
proof -
  from assms have n: "n < 2 ^ 32"
    and bs: "bs = [of_nat (n mod 256), of_nat (n div 256 mod 256),
                   of_nat (n div 65536 mod 256), of_nat (n div 16777216 mod 256)]"
    by (auto simp: to_bytes4_little_def split: if_splits)
  show "length bs = 4" by (simp add: bs)
  show "n < 2 ^ 32" by (rule n)
  have "n div 16777216 < 256" using n by simp
  then have a: "n div 16777216 mod 256 = n div 16777216" by simp
  have b: "n div 65536 = n div 256 div 256" "n div 16777216 = n div 256 div 256 div 256"
    by (simp_all add: div_mult2_eq[symmetric])
  have c: "\<And>m::nat. m mod 256 + 256 * (m div 256) = m" by simp
  have "n mod 256 + (256 * (n div 256 mod 256) +
      (65536 * (n div 65536 mod 256) + 16777216 * (n div 16777216))) = n"
    unfolding b using c[of n] c[of "n div 256"] c[of "n div 256 div 256"] by linarith
  with a show "from_bytes_little bs = n"
    by (simp add: bs unat_of_nat)
qed

lemma to_bytes4_little_small: "n < 2 ^ 32 \<Longrightarrow> \<exists>bs. to_bytes4_little n = Inr bs"
  by (simp add: to_bytes4_little_def)

section \<open>The INFO entry\<close>

lemma encode_riff_info_abc:
  "encode_riff_info (lit ''INAM'') (lit ''abc'') =
     Inr (blit ''INAM'' @ [4, 0, 0, 0] @ [97, 98, 99, 0])"
  by (simp add: encode_riff_info_def lit_def blit_def utf8_char_def to_bytes4_little_def)

text \<open>
  C1, as the specification states it, does not hold: the declared size is read after
  the pad octet was appended. For the value "abc" the UTF-8 encoding has 3 octets,
  the entry holds them and one pad octet, and the size field says 4.
\<close>

theorem riff_entry_size_excludes_pad_counterexample:
  "encode_utf8 (lit ''abc'') = Inr [97, 98, 99] \<and>
   encode_riff_info (lit ''INAM'') (lit ''abc'') =
     Inr (blit ''INAM'' @ [4, 0, 0, 0] @ [97, 98, 99, 0]) \<and>
   from_bytes_little [4, 0, 0, 0] \<noteq> length [97 :: byte, 98, 99]"
  by (simp add: encode_riff_info_def lit_def blit_def utf8_char_def to_bytes4_little_def)

text \<open>
  C1, amended: every entry the builder produces is the ASCII tag, a 4-octet
  little-endian size field, the UTF-8 encoding of the value, and one 0x00 pad octet
  when that encoding has an odd length; the size field is the length of the encoded
  value plus the pad octet, so the pad counts toward the declared size.
\<close>

theorem riff_entry_size_counts_pad:
  assumes "encode_riff_info tag v = Inr entry"
  shows "\<exists>tag_bytes value_bytes sz_bytes.
           encode_ascii tag = Inr tag_bytes \<and> encode_utf8 v = Inr value_bytes \<and>
           entry = tag_bytes @ sz_bytes @ value_bytes @
                     (if odd (length value_bytes) then [0] else []) \<and>
           length sz_bytes = 4 \<and>
           from_bytes_little sz_bytes = length value_bytes + length value_bytes mod 2"
proof -
  from assms obtain vb where vb: "encode_utf8 v = Inr vb"
    by (cases "encode_utf8 v") (simp_all add: encode_riff_info_def)
  define padded where "padded = (if length vb mod 2 = 1 then vb @ [0] else vb)"
  from assms vb obtain tb where tb: "encode_ascii tag = Inr tb"
    by (cases "encode_ascii tag") (simp_all add: encode_riff_info_def Let_def)
  from assms vb tb obtain sb where sb: "to_bytes4_little (length padded) = Inr sb"
    by (cases "to_bytes4_little (length padded)")
       (simp_all add: encode_riff_info_def Let_def padded_def)
  from assms vb tb sb have entry: "entry = tb @ sb @ padded"
    by (simp add: encode_riff_info_def Let_def padded_def)
  have p1: "padded = vb @ (if odd (length vb) then [0] else [])"
    by (simp add: padded_def odd_iff_mod_2_eq_one)
  have p2: "length padded = length vb + length vb mod 2"
    by (simp add: padded_def)
  have "length sb = 4" "from_bytes_little sb = length vb + length vb mod 2"
    using to_bytes4_little_Inr(1,2)[OF sb] p2 by simp_all
  with vb tb entry p1 show ?thesis by blast
qed

theorem riff_entry_size_counts_pad_witness:
  "\<exists>tag_bytes value_bytes sz_bytes.
     encode_ascii (lit ''INAM'') = Inr tag_bytes \<and>
     encode_utf8 (lit ''abc'') = Inr value_bytes \<and>
     blit ''INAM'' @ [4, 0, 0, 0] @ [97, 98, 99, 0] =
       tag_bytes @ sz_bytes @ value_bytes @ (if odd (length value_bytes) then [0] else []) \<and>
     length sz_bytes = 4 \<and>
     from_bytes_little sz_bytes = length value_bytes + length value_bytes mod 2"
  by (rule riff_entry_size_counts_pad [OF encode_riff_info_abc])

section \<open>Which entries the builder emits\<close>

lemma encode_entries_append:
  "encode_entries (xs @ ys) =
     (case encode_entries xs of
        Inl e \<Rightarrow> Inl e
      | Inr a \<Rightarrow> (case encode_entries ys of Inl e \<Rightarrow> Inl e | Inr b \<Rightarrow> Inr (a @ b)))"
  by (induction xs) (auto split: sum.splits)

lemma append_entry_encode_entries:
  "append_entry (encode_entries xs) tag v = encode_entries (xs @ [(tag, v)])"
  by (simp add: append_entry_def encode_entries_append split: sum.splits)

lemma field_step:
  "(case m field of
      None \<Rightarrow> encode_entries xs
    | Some v \<Rightarrow> append_entry (encode_entries xs) tag v) =
     encode_entries (xs @ field_entry m field tag)"
  by (simp add: field_entry_def append_entry_encode_entries split: option.splits)

lemma comments_labelled:
  "comments m =
     labelled m (lit ''BPM'') @ labelled m (lit ''Key'') @ labelled m (lit ''Publishers'')"
  by (simp add: comments_def labelled_def lit_def split: option.splits)

lemma comment_step:
  "(if comments m \<noteq> []
    then append_entry (encode_entries xs) (lit ''ICMT'') (join (lit '' | '') (comments m))
    else encode_entries xs) = encode_entries (xs @ comment_entry m)"
  by (simp add: comment_entry_def Let_def comments_labelled[symmetric]
        append_entry_encode_entries)

lemma riff_metadata_bytes_entries: "riff_metadata_bytes m = encode_entries (info_entries m)"
proof -
  have e: "Inr [] = encode_entries []" by simp
  show ?thesis
    unfolding riff_metadata_bytes_def Let_def info_entries_def e field_step comment_step
    by simp
qed

lemma labelled_Nil: "labelled m field = [] \<longleftrightarrow> m field = None"
  by (simp add: labelled_def split: option.splits)

lemma tags_distinct:
  "lit ''INAM'' \<noteq> lit ''IART''" "lit ''INAM'' \<noteq> lit ''IALB''" "lit ''INAM'' \<noteq> lit ''ICMT''"
  "lit ''IART'' \<noteq> lit ''IALB''" "lit ''IART'' \<noteq> lit ''ICMT''" "lit ''IALB'' \<noteq> lit ''ICMT''"
  by (simp_all add: lit_def)

lemma set_field_entry: "set (field_entry m field tag) = {(tag, v) | v. m field = Some v}"
  by (auto simp: field_entry_def split: option.splits)

lemma set_comment_entry:
  "set (comment_entry m) =
     (if m (lit ''BPM'') = None \<and> m (lit ''Key'') = None \<and> m (lit ''Publishers'') = None
      then {}
      else {(lit ''ICMT'', join (lit '' | '')
              (labelled m (lit ''BPM'') @ labelled m (lit ''Key'') @
               labelled m (lit ''Publishers'')))})"
  by (simp add: comment_entry_def Let_def labelled_Nil)

text \<open>
  C2, as the specification states it, does not hold: a field that is present with the
  empty string as its value still gets its entry. For the mapping that holds only
  "Track Title" with the value "", the builder emits an INAM entry of size 0, where
  the specification's rule emits nothing.
\<close>

theorem entry_only_when_non_empty_counterexample:
  "riff_metadata_bytes [lit ''Track Title'' \<mapsto> []] = Inr (blit ''INAM'' @ [0, 0, 0, 0]) \<and>
   spec_info_entries [lit ''Track Title'' \<mapsto> []] = [] \<and>
   encode_entries (spec_info_entries [lit ''Track Title'' \<mapsto> []]) = Inr [] \<and>
   riff_metadata_bytes [lit ''Track Title'' \<mapsto> []] \<noteq>
     encode_entries (spec_info_entries [lit ''Track Title'' \<mapsto> []])"
  by (simp add: riff_metadata_bytes_def comments_def append_entry_def
        encode_riff_info_def lit_def blit_def to_bytes4_little_def
        spec_info_entries_def spec_field_entry_def comment_entry_def labelled_def)

text \<open>
  C2, amended: the builder emits an INAM, IART or IALB entry exactly when the field
  Track Title, Composers or Source Program is present in the mapping, whatever its
  value, the empty string included; it emits an ICMT entry exactly when at least one
  of BPM, Key and Publishers is present, and its value is the " | "-separated
  concatenation of the present "Label: value" strings in the order BPM, Key,
  Publishers. The entries come in the order INAM, IART, IALB, ICMT.
\<close>

theorem entries_for_present_fields:
  "riff_metadata_bytes m = encode_entries (info_entries m) \<and>
   ((lit ''INAM'', v) \<in> set (info_entries m) \<longleftrightarrow> m (lit ''Track Title'') = Some v) \<and>
   ((lit ''IART'', v) \<in> set (info_entries m) \<longleftrightarrow> m (lit ''Composers'') = Some v) \<and>
   ((lit ''IALB'', v) \<in> set (info_entries m) \<longleftrightarrow> m (lit ''Source Program'') = Some v) \<and>
   ((lit ''ICMT'', v) \<in> set (info_entries m) \<longleftrightarrow>
      (m (lit ''BPM'') \<noteq> None \<or> m (lit ''Key'') \<noteq> None \<or> m (lit ''Publishers'') \<noteq> None) \<and>
      v = join (lit '' | '')
            (labelled m (lit ''BPM'') @ labelled m (lit ''Key'') @
             labelled m (lit ''Publishers''))) \<and>
   subseq (map fst (info_entries m)) [lit ''INAM'', lit ''IART'', lit ''IALB'', lit ''ICMT'']"
proof -
  have s: "set (info_entries m) =
      {(lit ''INAM'', v) | v. m (lit ''Track Title'') = Some v} \<union>
      {(lit ''IART'', v) | v. m (lit ''Composers'') = Some v} \<union>
      {(lit ''IALB'', v) | v. m (lit ''Source Program'') = Some v} \<union> set (comment_entry m)"
    by (simp add: info_entries_def set_field_entry Un_assoc)
  have 1: "(lit ''INAM'', v) \<in> set (info_entries m) \<longleftrightarrow> m (lit ''Track Title'') = Some v"
    unfolding s set_comment_entry using tags_distinct by auto
  have 2: "(lit ''IART'', v) \<in> set (info_entries m) \<longleftrightarrow> m (lit ''Composers'') = Some v"
    unfolding s set_comment_entry using tags_distinct by auto
  have 3: "(lit ''IALB'', v) \<in> set (info_entries m) \<longleftrightarrow> m (lit ''Source Program'') = Some v"
    unfolding s set_comment_entry using tags_distinct by auto
  have 4: "(lit ''ICMT'', v) \<in> set (info_entries m) \<longleftrightarrow>
      (m (lit ''BPM'') \<noteq> None \<or> m (lit ''Key'') \<noteq> None \<or> m (lit ''Publishers'') \<noteq> None) \<and>
      v = join (lit '' | '')
            (labelled m (lit ''BPM'') @ labelled m (lit ''Key'') @
             labelled m (lit ''Publishers''))"
    unfolding s set_comment_entry using tags_distinct by auto
  have 5: "subseq (map fst (info_entries m))
             [lit ''INAM'', lit ''IART'', lit ''IALB'', lit ''ICMT'']"
    by (simp add: info_entries_def field_entry_def comment_entry_def Let_def
          split: option.splits)
  from riff_metadata_bytes_entries 1 2 3 4 5 show ?thesis by blast
qed

theorem entries_for_present_fields_witness:
  "riff_metadata_bytes [lit ''Track Title'' \<mapsto> [], lit ''BPM'' \<mapsto> lit ''120''] =
     encode_entries (info_entries [lit ''Track Title'' \<mapsto> [], lit ''BPM'' \<mapsto> lit ''120'']) \<and>
   info_entries [lit ''Track Title'' \<mapsto> [], lit ''BPM'' \<mapsto> lit ''120''] =
     [(lit ''INAM'', []), (lit ''ICMT'', lit ''BPM: 120'')] \<and>
   (lit ''INAM'', []) \<in> set (info_entries [lit ''Track Title'' \<mapsto> [], lit ''BPM'' \<mapsto> lit ''120''])"
  using entries_for_present_fields
          [of "[lit ''Track Title'' \<mapsto> [], lit ''BPM'' \<mapsto> lit ''120'']" "[]"]
  by (simp add: info_entries_def field_entry_def comment_entry_def labelled_def lit_def)

section \<open>The LIST chunk\<close>

lemma build_list_chunk_Inr:
  assumes "build_list_chunk m = Inr c"
  shows "\<exists>mb sb. riff_metadata_bytes m = Inr mb \<and> to_bytes4_little (4 + length mb) = Inr sb \<and>
           c = blit ''LIST'' @ sb @ blit ''INFO'' @ mb"
proof -
  from assms obtain mb where mb: "riff_metadata_bytes m = Inr mb"
    by (cases "riff_metadata_bytes m") (simp_all add: build_list_chunk_def)
  have l: "length (blit ''INFO'') = 4" by (simp add: blit_def)
  from assms mb obtain sb where sb: "to_bytes4_little (4 + length mb) = Inr sb"
    by (cases "to_bytes4_little (4 + length mb)")
       (simp_all add: build_list_chunk_def Let_def l)
  from assms mb sb have "c = blit ''LIST'' @ sb @ blit ''INFO'' @ mb"
    by (simp add: build_list_chunk_def Let_def l)
  with mb sb show ?thesis by blast
qed

lemma build_list_chunk_succeeds:
  assumes "riff_metadata_bytes m = Inr mb" and "4 + length mb < 2 ^ 32"
  shows "\<exists>c. build_list_chunk m = Inr c"
proof -
  have l: "length (blit ''INFO'') = 4" by (simp add: blit_def)
  from to_bytes4_little_small[OF assms(2)] obtain sb
    where "to_bytes4_little (4 + length mb) = Inr sb" by blast
  with assms(1) show ?thesis by (simp add: build_list_chunk_def Let_def l)
qed

lemma build_list_chunk_title:
  "build_list_chunk [lit ''Track Title'' \<mapsto> lit ''abc''] =
     Inr (blit ''LIST'' @ [16, 0, 0, 0] @ blit ''INFO'' @
          blit ''INAM'' @ [4, 0, 0, 0] @ [97, 98, 99, 0])"
  by (simp add: build_list_chunk_def riff_metadata_bytes_def comments_def append_entry_def
        encode_riff_info_def lit_def blit_def utf8_char_def to_bytes4_little_def)

lemma build_list_chunk_empty:
  "build_list_chunk Map.empty = Inr (blit ''LIST'' @ [4, 0, 0, 0] @ blit ''INFO'')"
  by (simp add: build_list_chunk_def riff_metadata_bytes_def comments_def
        lit_def blit_def to_bytes4_little_def)

lemma utf8_char_ok:
  assumes "c < 0x110000" and "\<not> (0xD800 \<le> c \<and> c \<le> 0xDFFF)"
  shows "\<exists>b. utf8_char c = Inr b \<and> length b \<le> 4"
  using assms by (simp add: utf8_char_def)

lemma encodable_Cons:
  "encodable (c # cs) \<longleftrightarrow> (c < 0x110000 \<and> \<not> (0xD800 \<le> c \<and> c \<le> 0xDFFF)) \<and> encodable cs"
  by (simp add: encodable_def)

lemma encodable_append: "encodable (a @ b) \<longleftrightarrow> encodable a \<and> encodable b"
  by (simp add: encodable_def)

lemma encode_utf8_ok:
  "encodable s \<Longrightarrow> \<exists>bs. encode_utf8 s = Inr bs \<and> length bs \<le> 4 * length s"
proof (induction s)
  case Nil
  show ?case by simp
next
  case (Cons c cs)
  from Cons.prems have c: "c < 0x110000" "\<not> (0xD800 \<le> c \<and> c \<le> 0xDFFF)"
    and cs: "encodable cs" by (simp_all add: encodable_Cons)
  from utf8_char_ok[OF c] obtain b where b: "utf8_char c = Inr b" "length b \<le> 4" by blast
  from Cons.IH[OF cs] obtain bs where bs: "encode_utf8 cs = Inr bs" "length bs \<le> 4 * length cs"
    by blast
  from b bs show ?case by simp
qed

lemma encode_riff_info_ok:
  assumes "encodable v" and "length v \<le> n" and "4 * n + 1 < 2 ^ 32"
    and "encode_ascii tag = Inr tb"
  shows "\<exists>e. encode_riff_info tag v = Inr e \<and> length e \<le> length tb + 4 * n + 5"
proof -
  from encode_utf8_ok[OF assms(1)] obtain vb where vb: "encode_utf8 v = Inr vb"
    "length vb \<le> 4 * length v" by blast
  define padded where "padded = (if length vb mod 2 = 1 then vb @ [0] else vb)"
  have lp: "length padded \<le> 4 * n + 1" using vb(2) assms(2) by (simp add: padded_def)
  with assms(3) have "length padded < 2 ^ 32" by linarith
  from to_bytes4_little_small[OF this] obtain sb where sb: "to_bytes4_little (length padded) = Inr sb"
    by blast
  have e: "encode_riff_info tag v = Inr (tb @ sb @ padded)"
    using vb(1) assms(4) sb by (simp add: encode_riff_info_def Let_def padded_def)
  have "length (tb @ sb @ padded) \<le> length tb + 4 * n + 5"
    using lp to_bytes4_little_Inr(1)[OF sb] by simp
  with e show ?thesis by blast
qed

lemma encode_entries_ok:
  assumes "\<forall>(tag, v) \<in> set es. encodable v \<and> length v \<le> n \<and>
              (\<exists>tb. encode_ascii tag = Inr tb \<and> length tb = 4)"
    and "4 * n + 1 < 2 ^ 32"
  shows "\<exists>bs. encode_entries es = Inr bs \<and> length bs \<le> length es * (4 * n + 9)"
  using assms(1)
proof (induction es)
  case Nil
  show ?case by simp
next
  case (Cons a es)
  obtain tag v where a: "a = (tag, v)" by (cases a)
  from Cons.prems a obtain tb where v: "encodable v" "length v \<le> n"
    and tb: "encode_ascii tag = Inr tb" "length tb = 4" by auto
  from encode_riff_info_ok[OF v assms(2) tb(1)] tb(2) obtain e
    where e: "encode_riff_info tag v = Inr e" "length e \<le> 4 * n + 9" by auto
  from Cons.prems have "\<forall>(tag, v) \<in> set es. encodable v \<and> length v \<le> n \<and>
              (\<exists>tb. encode_ascii tag = Inr tb \<and> length tb = 4)" by simp
  from Cons.IH[OF this] obtain bs where bs: "encode_entries es = Inr bs"
    "length bs \<le> length es * (4 * n + 9)" by blast
  from e bs show ?case by (simp add: a)
qed


lemma join_encodable:
  "encodable sep \<Longrightarrow> list_all encodable xs \<Longrightarrow> encodable (join sep xs)"
  by (induction sep xs rule: join.induct) (simp_all add: encodable_append encodable_def)

lemma join_length:
  "list_all (\<lambda>x. length x \<le> b) xs \<Longrightarrow> length (join sep xs) \<le> length xs * (b + length sep)"
  by (induction sep xs rule: join.induct) simp_all

lemma encodable_dict_field:
  assumes "encodable_dict m" and "k \<in> set field_names" and "m k = Some v"
  shows "encodable v" and "length v < 2 ^ 24"
proof -
  from assms(1,2) have "case m k of None \<Rightarrow> True | Some v \<Rightarrow> encodable v \<and> length v < 2 ^ 24"
    by (simp add: encodable_dict_def list_all_iff)
  with assms(3) show "encodable v" and "length v < 2 ^ 24" by simp_all
qed

lemma labelled_ok:
  assumes "encodable_dict m" and "k \<in> set field_names"
  shows "list_all encodable (labelled m k)"
    and "list_all (\<lambda>x. length x \<le> 2 ^ 24 + 16) (labelled m k)"
    and "length (labelled m k) \<le> 1"
proof -
  have k: "encodable k" "length k \<le> 14"
    using assms(2) by (auto simp: field_names_def lit_def encodable_def)
  have c: "encodable (lit '': '')" "length (lit '': '') = 2"
    by (simp_all add: lit_def encodable_def)
  show "list_all encodable (labelled m k)"
    using encodable_dict_field(1)[OF assms] k(1) c(1)
    by (auto simp: labelled_def encodable_append split: option.splits)
  show "list_all (\<lambda>x. length x \<le> 2 ^ 24 + 16) (labelled m k)"
    using encodable_dict_field(2)[OF assms] k(2) c(2)
    by (auto simp: labelled_def split: option.splits)
  show "length (labelled m k) \<le> 1"
    by (simp add: labelled_def split: option.splits)
qed

lemma tag_bytes:
  "encode_ascii (lit ''INAM'') = Inr (blit ''INAM'')"
  "encode_ascii (lit ''IART'') = Inr (blit ''IART'')"
  "encode_ascii (lit ''IALB'') = Inr (blit ''IALB'')"
  "encode_ascii (lit ''ICMT'') = Inr (blit ''ICMT'')"
  by (simp_all add: lit_def blit_def)

lemma in_field_names:
  "lit ''Track Title'' \<in> set field_names" "lit ''Composers'' \<in> set field_names"
  "lit ''Source Program'' \<in> set field_names" "lit ''BPM'' \<in> set field_names"
  "lit ''Key'' \<in> set field_names" "lit ''Publishers'' \<in> set field_names"
  by (simp_all add: field_names_def)

lemma comment_entry_ok:
  assumes "encodable_dict m" and "(tag, v) \<in> set (comment_entry m)"
  shows "encodable v \<and> length v \<le> 3 * 2 ^ 24 + 57 \<and>
         (\<exists>tb. encode_ascii tag = Inr tb \<and> length tb = 4)"
proof -
  let ?p = "labelled m (lit ''BPM'') @ labelled m (lit ''Key'') @ labelled m (lit ''Publishers'')"
  from assms(2) have tv: "tag = lit ''ICMT''" "v = join (lit '' | '') ?p"
    by (auto simp: comment_entry_def Let_def split: if_splits)
  note l = labelled_ok[OF assms(1)]
  have e: "list_all encodable ?p"
    using l(1)[OF in_field_names(4)] l(1)[OF in_field_names(5)] l(1)[OF in_field_names(6)]
    by simp
  have b: "list_all (\<lambda>x. length x \<le> 2 ^ 24 + 16) ?p"
    using l(2)[OF in_field_names(4)] l(2)[OF in_field_names(5)] l(2)[OF in_field_names(6)]
    by simp
  have n: "length ?p \<le> 3"
    using l(3)[OF in_field_names(4)] l(3)[OF in_field_names(5)] l(3)[OF in_field_names(6)]
    by simp
  have s: "encodable (lit '' | '')" "length (lit '' | '') = 3"
    by (simp_all add: lit_def encodable_def)
  have 1: "encodable v" unfolding tv by (rule join_encodable[OF s(1) e])
  have "length v \<le> length ?p * (2 ^ 24 + 16 + 3)"
    unfolding tv using join_length[OF b, of "lit '' | ''"] s(2) by simp
  also have "\<dots> \<le> 3 * (2 ^ 24 + 16 + 3)" using n by (rule mult_le_mono1)
  finally have 2: "length v \<le> 3 * 2 ^ 24 + 57" by simp
  have 3: "\<exists>tb. encode_ascii tag = Inr tb \<and> length tb = 4"
    unfolding tv by (simp add: tag_bytes blit_def)
  from 1 2 3 show ?thesis by blast
qed

lemma field_entry_ok:
  assumes "encodable_dict m" and "k \<in> set field_names"
    and "\<exists>tb. encode_ascii t = Inr tb \<and> length tb = 4"
    and "(tag, v) \<in> set (field_entry m k t)"
  shows "encodable v \<and> length v \<le> 3 * 2 ^ 24 + 57 \<and>
         (\<exists>tb. encode_ascii tag = Inr tb \<and> length tb = 4)"
proof -
  from assms(4) have tv: "tag = t" "m k = Some v"
    by (auto simp: field_entry_def split: option.splits)
  from encodable_dict_field[OF assms(1,2) tv(2)] assms(3) tv(1) show ?thesis by simp
qed

lemma info_entries_ok:
  assumes "encodable_dict m"
  shows "\<forall>(tag, v) \<in> set (info_entries m). encodable v \<and> length v \<le> 3 * 2 ^ 24 + 57 \<and>
              (\<exists>tb. encode_ascii tag = Inr tb \<and> length tb = 4)"
    and "length (info_entries m) \<le> 4"
proof -
  have t: "\<exists>tb. encode_ascii (lit ''INAM'') = Inr tb \<and> length tb = 4"
    "\<exists>tb. encode_ascii (lit ''IART'') = Inr tb \<and> length tb = 4"
    "\<exists>tb. encode_ascii (lit ''IALB'') = Inr tb \<and> length tb = 4"
    by (simp_all add: tag_bytes blit_def)
  show "\<forall>(tag, v) \<in> set (info_entries m). encodable v \<and> length v \<le> 3 * 2 ^ 24 + 57 \<and>
              (\<exists>tb. encode_ascii tag = Inr tb \<and> length tb = 4)"
    using field_entry_ok[OF assms in_field_names(1) t(1)]
      field_entry_ok[OF assms in_field_names(2) t(2)]
      field_entry_ok[OF assms in_field_names(3) t(3)]
      comment_entry_ok[OF assms]
    by (auto simp: info_entries_def)
  show "length (info_entries m) \<le> 4"
    by (simp add: info_entries_def field_entry_def comment_entry_def Let_def
          split: option.splits)
qed

lemma build_list_chunk_total:
  assumes "encodable_dict m"
  shows "\<exists>c. build_list_chunk m = Inr c"
proof -
  have small: "4 * (3 * 2 ^ 24 + 57) + 1 < (2::nat) ^ 32" by simp
  from encode_entries_ok[OF info_entries_ok(1)[OF assms] small]
  obtain bs where bs: "encode_entries (info_entries m) = Inr bs"
    and l: "length bs \<le> length (info_entries m) * (4 * (3 * 2 ^ 24 + 57) + 9)" by blast
  have "length (info_entries m) * (4 * (3 * 2 ^ 24 + 57) + 9) \<le> 4 * (4 * (3 * 2 ^ 24 + 57) + 9)"
    using info_entries_ok(2)[OF assms] by (rule mult_le_mono1)
  with l have "length bs \<le> 4 * (4 * (3 * 2 ^ 24 + 57) + 9)" by (rule le_trans)
  then have "4 + length bs < 2 ^ 32" by simp
  with bs show ?thesis
    by (intro build_list_chunk_succeeds[of m bs]) (simp_all add: riff_metadata_bytes_entries)
qed


text \<open>
  C6: for every mapping whose values can be encoded the builder returns a chunk, and
  a chunk built from a metadata mapping starts with "LIST", its little-endian size
  field in octets 4 to 8 being the length of the chunk minus 8: the length of "INFO"
  and of all the entries with their pad octets.
\<close>

theorem list_chunk_size_exact:
  "(encodable_dict m \<longrightarrow> (\<exists>c'. build_list_chunk m = Inr c')) \<and>
   (build_list_chunk m = Inr c \<longrightarrow>
      py_slice c 0 4 = blit ''LIST'' \<and>
      from_bytes_little (py_slice c 4 8) = length c - 8 \<and> 8 \<le> length c \<and>
      py_slice c 8 12 = blit ''INFO'' \<and>
      (\<exists>mb. riff_metadata_bytes m = Inr mb \<and> length c - 8 = 4 + length mb \<and>
            drop 12 c = mb))"
proof (intro conjI impI)
  assume "encodable_dict m"
  then show "\<exists>c'. build_list_chunk m = Inr c'" by (rule build_list_chunk_total)
next
  assume built: "build_list_chunk m = Inr c"
  from build_list_chunk_Inr[OF built] obtain mb sb where
    mb: "riff_metadata_bytes m = Inr mb" and sb: "to_bytes4_little (4 + length mb) = Inr sb"
    and c: "c = blit ''LIST'' @ sb @ blit ''INFO'' @ mb" by blast
  note s = to_bytes4_little_Inr(1,2)[OF sb]
  have l4: "length (blit ''LIST'') = 4" "length (blit ''INFO'') = 4" by (simp_all add: blit_def)
  show "py_slice c 0 4 = blit ''LIST''" by (simp add: c py_slice_def l4)
  have 2: "py_slice c 4 8 = sb" by (simp add: c py_slice_def l4 s)
  have 3: "length c = 12 + length mb" by (simp add: c l4 s)
  show "from_bytes_little (py_slice c 4 8) = length c - 8" using 2 3 s by simp
  show "8 \<le> length c" using 3 by simp
  show "py_slice c 8 12 = blit ''INFO''" by (simp add: c py_slice_def l4 s)
  have 5: "drop 12 c = mb" by (simp add: c l4 s)
  show "\<exists>mb. riff_metadata_bytes m = Inr mb \<and> length c - 8 = 4 + length mb \<and> drop 12 c = mb"
    using mb 3 5 by simp
qed

theorem list_chunk_size_exact_witness:
  "encodable_dict [lit ''Track Title'' \<mapsto> lit ''abc''] \<and>
   (\<exists>c'. build_list_chunk [lit ''Track Title'' \<mapsto> lit ''abc''] = Inr c') \<and>
   build_list_chunk [lit ''Track Title'' \<mapsto> lit ''abc''] =
     Inr (blit ''LIST'' @ [16, 0, 0, 0] @ blit ''INFO'' @
          blit ''INAM'' @ [4, 0, 0, 0] @ [97, 98, 99, 0]) \<and>
   py_slice (blit ''LIST'' @ [16, 0, 0, 0] @ blit ''INFO'' @
             blit ''INAM'' @ [4, 0, 0, 0] @ [97, 98, 99, 0]) 0 4 = blit ''LIST'' \<and>
   from_bytes_little (py_slice (blit ''LIST'' @ [16, 0, 0, 0] @ blit ''INFO'' @
             blit ''INAM'' @ [4, 0, 0, 0] @ [97, 98, 99, 0]) 4 8) =
     length (blit ''LIST'' @ [16, 0, 0, 0] @ blit ''INFO'' @
             blit ''INAM'' @ [4, 0, 0, 0] @ [97, 98, 99, 0]) - 8"
proof -
  let ?m = "[lit ''Track Title'' \<mapsto> lit ''abc'']"
  let ?c = "blit ''LIST'' @ [16, 0, 0, 0] @ blit ''INFO'' @
            blit ''INAM'' @ [4, 0, 0, 0] @ [97, 98, 99, 0]"
  have e: "encodable_dict ?m"
    by (simp add: encodable_dict_def field_names_def encodable_def lit_def)
  note t = list_chunk_size_exact [where m = ?m and c = ?c]
  from t e have 1: "\<exists>c'. build_list_chunk ?m = Inr c'" by blast
  from t build_list_chunk_title
  have 2: "py_slice ?c 0 4 = blit ''LIST''"
    and 3: "from_bytes_little (py_slice ?c 4 8) = length ?c - 8" by blast+
  from e 1 build_list_chunk_title 2 3 show ?thesis by (intro conjI)
qed

section \<open>The scan for the fmt chunk\<close>

lemma find_fmt_end_skip:
  assumes "pos + 8 \<le> length wav_data"
    and "py_slice wav_data pos (pos + 4) \<noteq> blit ''fmt ''"
  shows "find_fmt_end wav_data pos =
           find_fmt_end wav_data
             (pos + 8 + from_bytes_little (py_slice wav_data (pos + 4) (pos + 8)))"
  using assms by (subst find_fmt_end.simps) (simp add: Let_def)

lemma find_fmt_end_hit:
  assumes "pos + 8 \<le> length wav_data"
    and "py_slice wav_data pos (pos + 4) = blit ''fmt ''"
  shows "find_fmt_end wav_data pos =
           Some (pos + 8 + from_bytes_little (py_slice wav_data (pos + 4) (pos + 8)))"
  using assms by (subst find_fmt_end.simps) (simp add: Let_def)

lemma find_fmt_end_end:
  "\<not> pos + 8 \<le> length wav_data \<Longrightarrow> find_fmt_end wav_data pos = None"
  by (subst find_fmt_end.simps) simp

lemma find_fmt_end_Some_length:
  "find_fmt_end wav_data pos = Some fmt_end \<Longrightarrow> pos + 8 \<le> length wav_data"
  by (rule ccontr) (simp add: find_fmt_end_end)

lemma find_fmt_end_ge: "find_fmt_end wav_data pos = Some fmt_end \<Longrightarrow> pos + 8 \<le> fmt_end"
proof (induction wav_data pos rule: find_fmt_end.induct)
  case (1 wav_data pos)
  show ?case
  proof (cases "pos + 8 \<le> length wav_data")
    case False
    with "1.prems" show ?thesis by (simp add: find_fmt_end_end)
  next
    case True
    show ?thesis
    proof (cases "py_slice wav_data pos (pos + 4) = blit ''fmt ''")
      case hit: True
      with True "1.prems" show ?thesis by (simp add: find_fmt_end_hit)
    next
      case miss: False
      from "1.prems" have "find_fmt_end wav_data
             (pos + 8 + from_bytes_little (py_slice wav_data (pos + 4) (pos + 8))) =
               Some fmt_end"
        by (simp add: find_fmt_end_skip[OF True miss])
      from "1.IH"[OF True refl refl miss this] show ?thesis by simp
    qed
  qed
qed

lemma odd_chunk_wav_scan:
  "find_fmt_end odd_chunk_wav 12 = None" "find_fmt_end odd_chunk_wav 21 = None"
  "find_fmt_end odd_chunk_wav 22 = Some 46"
  by (simp_all add: find_fmt_end.simps odd_chunk_wav_def blit_def py_slice_def)

lemma even_chunk_wav_scan:
  "find_fmt_end even_chunk_wav 12 = Some 46" "find_fmt_end even_chunk_wav 22 = Some 46"
  by (simp_all add: find_fmt_end.simps even_chunk_wav_def blit_def py_slice_def)

lemma even_chunk_wav_header:
  "py_slice even_chunk_wav 0 4 = blit ''RIFF''" "py_slice even_chunk_wav 8 12 = blit ''WAVE''"
  "py_slice even_chunk_wav 12 (12 + 4) \<noteq> blit ''fmt ''"
  "from_bytes_little (py_slice even_chunk_wav (12 + 4) (12 + 8)) = 2"
  "12 + 8 \<le> length even_chunk_wav"
  by (simp_all add: even_chunk_wav_def blit_def py_slice_def)

lemma odd_chunk_wav_header:
  "py_slice odd_chunk_wav 0 4 = blit ''RIFF''" "py_slice odd_chunk_wav 8 12 = blit ''WAVE''"
  "py_slice odd_chunk_wav 12 (12 + 4) \<noteq> blit ''fmt ''"
  "from_bytes_little (py_slice odd_chunk_wav (12 + 4) (12 + 8)) = 1"
  "12 + 8 \<le> length odd_chunk_wav"
  by (simp_all add: odd_chunk_wav_def blit_def py_slice_def)




section \<open>The insertion after the fmt chunk\<close>

lemma splice_frame:
  assumes "20 \<le> fmt_end" "20 \<le> length wav"
    and out: "out = take fmt_end wav @ chunk @ drop fmt_end wav"
  shows "length out = length wav + length chunk"
    and "\<forall>i. i < fmt_end \<and> i < length wav \<longrightarrow> out ! i = wav ! i"
    and "\<forall>i. fmt_end \<le> i \<and> i < length wav \<longrightarrow> out ! (i + length chunk) = wav ! i"
    and "py_slice out 4 8 = py_slice wav 4 8"
proof -
  show "length out = length wav + length chunk" by (simp add: out)
  show "\<forall>i. i < fmt_end \<and> i < length wav \<longrightarrow> out ! i = wav ! i"
    by (simp add: out nth_append)
  show "\<forall>i. fmt_end \<le> i \<and> i < length wav \<longrightarrow> out ! (i + length chunk) = wav ! i"
  proof (intro allI impI)
    fix i assume i: "fmt_end \<le> i \<and> i < length wav"
    then have l: "length (take fmt_end wav) = fmt_end" by simp
    have "out ! (i + length chunk) = (chunk @ drop fmt_end wav) ! (i + length chunk - fmt_end)"
      using i by (simp add: out nth_append l)
    also have "i + length chunk - fmt_end = length chunk + (i - fmt_end)"
      using i by arith
    also have "(chunk @ drop fmt_end wav) ! (length chunk + (i - fmt_end)) =
                 drop fmt_end wav ! (i - fmt_end)"
      by (rule nth_append_length_plus)
    also have "\<dots> = wav ! i" using i by simp
    finally show "out ! (i + length chunk) = wav ! i" .
  qed
  have "take 8 out = take 8 wav" using assms(1,2) by (simp add: out min_def)
  then have "drop 4 (take 8 out) = drop 4 (take 8 wav)" by simp
  then show "py_slice out 4 8 = py_slice wav 4 8"
    by (simp add: py_slice_def drop_take)
qed

lemma insert_after_fmt_even_chunk_wav:
  "insert_after_fmt even_chunk_wav list_chunk =
     Inr (take 46 even_chunk_wav @ list_chunk @ drop 46 even_chunk_wav)"
  by (simp add: insert_after_fmt_def even_chunk_wav_header even_chunk_wav_scan)

lemma add_riff_metadata_Inr:
  "add_riff_metadata wav_data m = Inr out \<longleftrightarrow>
     (\<exists>list_chunk. build_list_chunk m = Inr list_chunk \<and>
        insert_after_fmt wav_data list_chunk = Inr out)"
  by (simp add: add_riff_metadata_def split: sum.splits)

lemma add_riff_metadata_odd_chunk_wav:
  "add_riff_metadata odd_chunk_wav Map.empty = Inl MissingChunk"
  by (simp add: add_riff_metadata_def build_list_chunk_empty insert_after_fmt_def
        odd_chunk_wav_header odd_chunk_wav_scan)

lemma insert_after_fmt_Inr_scan:
  assumes "insert_after_fmt wav_data list_chunk = Inr out"
  shows "\<exists>fmt_end. find_fmt_end wav_data 12 = Some fmt_end \<and>
           out = take fmt_end wav_data @ list_chunk @ drop fmt_end wav_data"
  using assms by (auto simp: insert_after_fmt_def split: if_splits option.splits)

text \<open>
  C4: for every buffer with the RIFF/WAVE header in which the scan finds a fmt chunk
  ending at \<open>fmt_end\<close>, the insertion returns
  \<open>wav_data[0:fmt_end] + list_chunk + wav_data[fmt_end:]\<close>. Every octet of the input
  is kept: those before \<open>fmt_end\<close> at the same offset, those from \<open>fmt_end\<close> on
  moved up by the length of the chunk. The RIFF size field is not recomputed: octets
  4 to 8 of the result are octets 4 to 8 of the input.
\<close>

theorem splice_keeps_every_octet:
  assumes "py_slice wav_data 0 4 = blit ''RIFF''"
    and "py_slice wav_data 8 12 = blit ''WAVE''"
    and "find_fmt_end wav_data 12 = Some fmt_end"
  shows "\<exists>out. insert_after_fmt wav_data list_chunk = Inr out \<and>
           out = py_slice wav_data 0 fmt_end @ list_chunk @ drop fmt_end wav_data \<and>
           length out = length wav_data + length list_chunk \<and>
           (\<forall>i. i < fmt_end \<and> i < length wav_data \<longrightarrow> out ! i = wav_data ! i) \<and>
           (\<forall>i. fmt_end \<le> i \<and> i < length wav_data \<longrightarrow>
                out ! (i + length list_chunk) = wav_data ! i) \<and>
           py_slice out 4 8 = py_slice wav_data 4 8"
proof -
  define out where "out = take fmt_end wav_data @ list_chunk @ drop fmt_end wav_data"
  from assms have r: "insert_after_fmt wav_data list_chunk = Inr out"
    by (simp add: insert_after_fmt_def out_def)
  from find_fmt_end_ge[OF assms(3)] have a: "20 \<le> fmt_end" by simp
  from find_fmt_end_Some_length[OF assms(3)] have b: "20 \<le> length wav_data" by simp
  have s: "py_slice wav_data 0 fmt_end = take fmt_end wav_data" by (simp add: py_slice_def)
  note fr = splice_frame[OF a b out_def]
  from out_def s have out2:
    "out = py_slice wav_data 0 fmt_end @ list_chunk @ drop fmt_end wav_data" by simp
  show ?thesis
    by (rule exI[of _ out]) (intro conjI r out2 fr)
qed

theorem splice_keeps_every_octet_witness:
  "\<exists>out. insert_after_fmt even_chunk_wav (blit ''LIST'' @ [4, 0, 0, 0] @ blit ''INFO'') =
           Inr out \<and>
     out = py_slice even_chunk_wav 0 46 @ (blit ''LIST'' @ [4, 0, 0, 0] @ blit ''INFO'') @
             drop 46 even_chunk_wav \<and>
     length out =
       length even_chunk_wav + length (blit ''LIST'' @ [4, 0, 0, 0] @ blit ''INFO'') \<and>
     (\<forall>i. i < 46 \<and> i < length even_chunk_wav \<longrightarrow> out ! i = even_chunk_wav ! i) \<and>
     (\<forall>i. 46 \<le> i \<and> i < length even_chunk_wav \<longrightarrow>
        out ! (i + length (blit ''LIST'' @ [4, 0, 0, 0] @ blit ''INFO'')) =
          even_chunk_wav ! i) \<and>
     py_slice out 4 8 = py_slice even_chunk_wav 4 8"
  by (rule splice_keeps_every_octet
            [OF even_chunk_wav_header(1) even_chunk_wav_header(2) even_chunk_wav_scan(1)])

text \<open>
  C5: the insertion fails with \<open>InvalidFormat\<close> exactly when the first 4 octets are
  not "RIFF" or octets 8 to 12 are not "WAVE"; it fails with \<open>MissingChunk\<close> exactly
  when the header is right and the scan ends without a fmt chunk; it succeeds in
  every other case, and it fails in no other way.
\<close>

theorem splice_errors:
  "(insert_after_fmt wav_data list_chunk = Inl InvalidFormat \<longleftrightarrow>
      (py_slice wav_data 0 4 \<noteq> blit ''RIFF'' \<or> py_slice wav_data 8 12 \<noteq> blit ''WAVE'')) \<and>
   (insert_after_fmt wav_data list_chunk = Inl MissingChunk \<longleftrightarrow>
      (py_slice wav_data 0 4 = blit ''RIFF'' \<and> py_slice wav_data 8 12 = blit ''WAVE'' \<and>
       find_fmt_end wav_data 12 = None)) \<and>
   ((\<exists>out. insert_after_fmt wav_data list_chunk = Inr out) \<longleftrightarrow>
      (py_slice wav_data 0 4 = blit ''RIFF'' \<and> py_slice wav_data 8 12 = blit ''WAVE'' \<and>
       find_fmt_end wav_data 12 \<noteq> None)) \<and>
   (\<forall>e. insert_after_fmt wav_data list_chunk = Inl e \<longrightarrow>
        e = InvalidFormat \<or> e = MissingChunk)"
  by (auto simp: insert_after_fmt_def split: option.splits)

theorem splice_errors_witness:
  "insert_after_fmt (blit ''RIFX'') [] = Inl InvalidFormat \<and>
   insert_after_fmt (blit ''RIFF'' @ [4, 0, 0, 0] @ blit ''WAVE'') [] = Inl MissingChunk \<and>
   (\<exists>out. insert_after_fmt even_chunk_wav [] = Inr out)"
proof -
  have a: "py_slice (blit ''RIFX'') 0 4 \<noteq> blit ''RIFF''"
    by (simp add: blit_def py_slice_def)
  have b: "py_slice (blit ''RIFF'' @ [4, 0, 0, 0] @ blit ''WAVE'') 0 4 = blit ''RIFF''"
    "py_slice (blit ''RIFF'' @ [4, 0, 0, 0] @ blit ''WAVE'') 8 12 = blit ''WAVE''"
    "find_fmt_end (blit ''RIFF'' @ [4, 0, 0, 0] @ blit ''WAVE'') 12 = None"
    by (simp_all add: blit_def py_slice_def find_fmt_end.simps)
  have c: "find_fmt_end even_chunk_wav 12 \<noteq> None"
    by (simp add: even_chunk_wav_scan)
  from splice_errors [of "blit ''RIFX''" "[]"] a
  have 1: "insert_after_fmt (blit ''RIFX'') [] = Inl InvalidFormat" by blast
  from splice_errors [of "blit ''RIFF'' @ [4, 0, 0, 0] @ blit ''WAVE''" "[]"] b
  have 2: "insert_after_fmt (blit ''RIFF'' @ [4, 0, 0, 0] @ blit ''WAVE'') [] =
             Inl MissingChunk" by blast
  from splice_errors [of even_chunk_wav "[]"] even_chunk_wav_header(1,2) c
  have 3: "\<exists>out. insert_after_fmt even_chunk_wav [] = Inr out" by blast
  from 1 2 3 show ?thesis by blast
qed

section \<open>The 34-cell gate of the decoder\<close>

lemma rows_loop_filter:
  "rows_loop rows acc = acc @ map row_metadata (filter (\<lambda>row. \<not> length row < 34) rows)"
  by (induction rows arbitrary: acc) auto

lemma sheets_loop_concat:
  "sheets_loop sheets acc = acc @ map row_metadata (filter (\<lambda>row. \<not> length row < 34) (concat sheets))"
  by (induction sheets arbitrary: acc) (auto simp: rows_loop_filter)

lemma parse_excel_filter:
  "parse_excel sheets = map row_metadata (filter (\<lambda>row. \<not> length row < 34) (concat sheets))"
  by (simp add: parse_excel_def sheets_loop_concat)

lemma parse_csv_filter:
  "parse_csv (header # rows) =
     Inr (map row_metadata (filter (\<lambda>row. \<not> length row < 34) (map (map Some) rows)))"
  by (simp add: parse_csv_def rows_loop_filter)


text \<open>
  C7: a row of fewer than 34 cells adds no record and raises nothing, in the Excel
  decoder and in the CSV decoder alike: both return the records of exactly the rows
  of 34 or more cells, in row order, and a short row can be taken out of the input
  without changing the result.
\<close>

theorem short_rows_are_skipped:
  "parse_excel sheets =
     map row_metadata (filter (\<lambda>row. 34 \<le> length row) (concat sheets)) \<and>
   parse_csv (header # rows) =
     Inr (map row_metadata (filter (\<lambda>row. 34 \<le> length row) (map (map Some) rows))) \<and>
   (length xrow < 34 \<longrightarrow>
      parse_excel (sheets_a @ [rows_a @ [xrow] @ rows_b] @ sheets_b) =
        parse_excel (sheets_a @ [rows_a @ rows_b] @ sheets_b)) \<and>
   (length crow < 34 \<longrightarrow>
      parse_csv (header # crows_a @ [crow] @ crows_b) = parse_csv (header # crows_a @ crows_b))"
  by (simp add: parse_excel_filter parse_csv_filter not_less)

theorem short_rows_are_skipped_witness:
  "parse_excel [[[Some (lit ''a''), None], replicate 34 None]] =
     [row_metadata (replicate 34 None)] \<and>
   parse_excel ([] @ [[] @ [[Some (lit ''a''), None]] @ [replicate 34 None]] @ []) =
     parse_excel ([] @ [[] @ [replicate 34 None]] @ []) \<and>
   parse_csv [[lit ''h''], [lit ''a''], replicate 34 []] =
     Inr [row_metadata (replicate 34 (Some []))] \<and>
   parse_csv ([lit ''h''] # [] @ [[lit ''a'']] @ [replicate 34 []]) =
     parse_csv ([lit ''h''] # [] @ [replicate 34 []])"
proof -
  note t = short_rows_are_skipped
          [where sheets = "[[[Some (lit ''a''), None], replicate 34 None]]"
             and header = "[lit ''h'']" and rows = "[[lit ''a''], replicate 34 []]"
             and xrow = "[Some (lit ''a''), None]" and sheets_a = "[]" and rows_a = "[]"
             and rows_b = "[replicate 34 None]" and sheets_b = "[]"
             and crow = "[lit ''a'']" and crows_a = "[]" and crows_b = "[replicate 34 []]"]
  have l: "length [Some (lit ''a''), None :: cell] < 34" "length [lit ''a''] < 34"
    by simp_all
  from t have "parse_excel [[[Some (lit ''a''), None], replicate 34 None]] =
     map row_metadata (filter (\<lambda>row. 34 \<le> length row)
       (concat [[[Some (lit ''a''), None], replicate 34 None]]))"
    by (rule conjunct1)
  then have 1: "parse_excel [[[Some (lit ''a''), None], replicate 34 None]] =
     [row_metadata (replicate 34 None)]"
    by simp
  from t l(1)
  have 2: "parse_excel ([] @ [[] @ [[Some (lit ''a''), None]] @ [replicate 34 None]] @ []) =
     parse_excel ([] @ [[] @ [replicate 34 None]] @ [])"
    by blast
  from t have "parse_csv ([lit ''h''] # [[lit ''a''], replicate 34 []]) =
     Inr (map row_metadata (filter (\<lambda>row. 34 \<le> length row)
            (map (map Some) [[lit ''a''], replicate 34 []])))"
    by blast
  then have 3: "parse_csv [[lit ''h''], [lit ''a''], replicate 34 []] =
     Inr [row_metadata (replicate 34 (Some []))]"
    by simp
  from t l(2)
  have 4: "parse_csv ([lit ''h''] # [] @ [[lit ''a'']] @ [replicate 34 []]) =
     parse_csv ([lit ''h''] # [] @ [replicate 34 []])"
    by blast
  from 1 2 3 4 show ?thesis by (intro conjI)
qed

section \<open>Writer and publisher credits\<close>

lemma join_Cons_append: "join sep (x # xs) = x @ concat (map (\<lambda>y. sep @ y) xs)"
  by (induction xs arbitrary: x) auto


text \<open>
  C8: a writer credit is produced exactly when one of the three name fields is not
  empty, a publisher credit exactly when the name is not empty. The credit is the
  name, then "(PRO)", "[CAE]" and "Share%", each left out when its field is empty,
  joined by single spaces. The writer's name is the non-empty name fields joined by
  spaces and stripped.
\<close>

theorem credit_format:
  "(format_writer first middle last' pro cae share = None \<longleftrightarrow>
      first = [] \<and> middle = [] \<and> last' = []) \<and>
   (format_writer first middle last' pro cae share \<noteq> None \<longrightarrow>
      format_writer first middle last' pro cae share =
        Some (join (lit '' '')
               ([writer_name first middle last'] @ opt_part (lit ''('') pro (lit '')'') @
                opt_part (lit ''['') cae (lit '']'') @ opt_part [] share (lit ''%'')))) \<and>
   (format_publisher name pro cae share = None \<longleftrightarrow> name = []) \<and>
   (format_publisher name pro cae share \<noteq> None \<longrightarrow>
      format_publisher name pro cae share =
        Some (join (lit '' '')
               ([name] @ opt_part (lit ''('') pro (lit '')'') @
                opt_part (lit ''['') cae (lit '']'') @ opt_part [] share (lit ''%'')))) \<and>
   format_writer (lit ''Jane'') [] [] (lit ''ASCAP'') [] (lit ''50'') = Some (lit ''Jane (ASCAP) 50%'') \<and>
   format_publisher (lit ''Acme Pub'') [] (lit ''123'') [] = Some (lit ''Acme Pub [123]'')"
proof -
  have 1: "format_writer first middle last' pro cae share = None \<longleftrightarrow>
      first = [] \<and> middle = [] \<and> last' = []"
    by (simp add: format_writer_def Let_def)
  have 2: "format_writer first middle last' pro cae share \<noteq> None \<longrightarrow>
      format_writer first middle last' pro cae share =
        Some (join (lit '' '')
               ([writer_name first middle last'] @ opt_part (lit ''('') pro (lit '')'') @
                opt_part (lit ''['') cae (lit '']'') @ opt_part [] share (lit ''%'')))"
    by (simp add: format_writer_def Let_def opt_part_def writer_name_def)
  have 3: "format_publisher name pro cae share = None \<longleftrightarrow> name = []"
    by (simp add: format_publisher_def Let_def)
  have 4: "format_publisher name pro cae share \<noteq> None \<longrightarrow>
      format_publisher name pro cae share =
        Some (join (lit '' '')
               ([name] @ opt_part (lit ''('') pro (lit '')'') @
                opt_part (lit ''['') cae (lit '']'') @ opt_part [] share (lit ''%'')))"
    by (simp add: format_publisher_def Let_def opt_part_def)
  have 5: "format_writer (lit ''Jane'') [] [] (lit ''ASCAP'') [] (lit ''50'') = Some (lit ''Jane (ASCAP) 50%'')"
    by (simp add: format_writer_def Let_def lit_def strip_def is_space_def)
  have 6: "format_publisher (lit ''Acme Pub'') [] (lit ''123'') [] = Some (lit ''Acme Pub [123]'')"
    by (simp add: format_publisher_def Let_def lit_def)
  from 1 2 3 4 5 6 show ?thesis by blast
qed

theorem credit_format_witness:
  "format_writer (lit ''Jane'') [] [] (lit ''ASCAP'') [] (lit ''50'') =
     Some (join (lit '' '')
            ([writer_name (lit ''Jane'') [] []] @ opt_part (lit ''('') (lit ''ASCAP'') (lit '')'') @
             opt_part (lit ''['') [] (lit '']'') @ opt_part [] (lit ''50'') (lit ''%''))) \<and>
   format_publisher (lit ''Acme Pub'') [] (lit ''123'') [] =
     Some (join (lit '' '')
            ([lit ''Acme Pub''] @ opt_part (lit ''('') [] (lit '')'') @
             opt_part (lit ''['') (lit ''123'') (lit '']'') @ opt_part [] [] (lit ''%''))) \<and>
   format_writer [] [] [] (lit ''ASCAP'') [] (lit ''50'') = None \<and>
   format_publisher [] (lit ''ASCAP'') [] [] = None"
proof -
  have a: "lit ''Jane'' \<noteq> []" "lit ''Acme Pub'' \<noteq> []" by (simp_all add: lit_def)
  note w = credit_format [where first = "lit ''Jane''" and middle = "[]" and last' = "[]"
             and pro = "lit ''ASCAP''" and cae = "[]" and share = "lit ''50''"
             and name = "[]"]
  note p = credit_format [where first = "[]" and middle = "[]" and last' = "[]"
             and pro = "[]" and cae = "lit ''123''" and share = "[]"
             and name = "lit ''Acme Pub''"]
  note n = credit_format [where first = "[]" and middle = "[]" and last' = "[]"
             and pro = "lit ''ASCAP''" and cae = "[]" and share = "lit ''50''"
             and name = "[]"]
  note q = credit_format [where first = "[]" and middle = "[]" and last' = "[]"
             and pro = "lit ''ASCAP''" and cae = "[]" and share = "[]"
             and name = "[]"]
  from w a have 1: "format_writer (lit ''Jane'') [] [] (lit ''ASCAP'') [] (lit ''50'') =
     Some (join (lit '' '')
            ([writer_name (lit ''Jane'') [] []] @ opt_part (lit ''('') (lit ''ASCAP'') (lit '')'') @
             opt_part (lit ''['') [] (lit '']'') @ opt_part [] (lit ''50'') (lit ''%'')))"
    by blast
  from p a have 2: "format_publisher (lit ''Acme Pub'') [] (lit ''123'') [] =
     Some (join (lit '' '')
            ([lit ''Acme Pub''] @ opt_part (lit ''('') [] (lit '')'') @
             opt_part (lit ''['') (lit ''123'') (lit '']'') @ opt_part [] [] (lit ''%'')))"
    by blast
  from n have 3: "format_writer [] [] [] (lit ''ASCAP'') [] (lit ''50'') = None" by blast
  from q have 4: "format_publisher [] (lit ''ASCAP'') [] [] = None" by blast
  from 1 2 3 4 show ?thesis by (intro conjI)
qed

section \<open>The match loops\<close>

lemma contains_sublist: "contains pat s = sublist pat s"
  by (induction s) (auto simp: sublist_Cons_right)

lemma contains_Nil: "contains [] s"
  by (cases s) simp_all

lemma contains_single: "contains [c] s \<longleftrightarrow> c \<in> set s"
  by (induction s) auto

lemma find_first:
  "(\<forall>r \<in> set pre. \<not> P r) \<Longrightarrow> P m \<Longrightarrow> find P (pre @ m # post) = Some m"
  by (induction pre) auto

lemma find_by_pattern_find:
  "find_by_pattern lower ms fn e =
     (case find (title_matches lower fn) ms of None \<Rightarrow> e | Some m \<Rightarrow> fill_fields m e)"
proof (induction ms)
  case Nil
  show ?case by simp
next
  case (Cons a ms)
  show ?case
  proof (cases "title_matches lower fn a")
    case True
    then have "find_by_pattern lower (a # ms) fn e = fill_fields a e"
      by (simp only: find_by_pattern.simps Let_def title_matches_def fill_fields_def if_True)
    with True show ?thesis by simp
  next
    case False
    then have "find_by_pattern lower (a # ms) fn e = find_by_pattern lower ms fn e"
      by (simp only: find_by_pattern.simps Let_def title_matches_def if_False)
    with False Cons.IH show ?thesis by simp
  qed
qed

lemma find_by_filename_find:
  "find_by_filename lower ms fn e =
     (case find (filename_matches lower fn) ms of
        None \<Rightarrow> e
      | Some m \<Rightarrow> e(lit ''Filename From Data'' \<mapsto> filename_from_data m))"
proof (induction ms)
  case Nil
  show ?case by simp
next
  case (Cons a ms)
  show ?case
  proof (cases "filename_matches lower fn a")
    case True
    then have "find_by_filename lower (a # ms) fn e =
                 e(lit ''Filename From Data'' \<mapsto> filename_from_data a)"
      by (simp only: find_by_filename.simps filename_matches_def if_True)
    with True show ?thesis by simp
  next
    case False
    then have "find_by_filename lower (a # ms) fn e = find_by_filename lower ms fn e"
      by (simp only: find_by_filename.simps filename_matches_def if_False)
    with False Cons.IH show ?thesis by simp
  qed
qed

lemma keys_distinct:
  "lit ''Filename From Data'' \<noteq> lit ''Track Title''"
  "lit ''Filename From Data'' \<noteq> lit ''Source Program''"
  "lit ''Filename From Data'' \<noteq> lit ''BPM''"
  "lit ''Filename From Data'' \<noteq> lit ''Key''"
  "lit ''Filename From Data'' \<noteq> lit ''Composers''"
  "lit ''Filename From Data'' \<noteq> lit ''Publishers''"
  "lit ''Track Title'' \<noteq> lit ''Source Program''"
  "lit ''Track Title'' \<noteq> lit ''BPM''"
  "lit ''Track Title'' \<noteq> lit ''Key''"
  "lit ''Track Title'' \<noteq> lit ''Composers''"
  "lit ''Track Title'' \<noteq> lit ''Publishers''"
  "lit ''Source Program'' \<noteq> lit ''BPM''"
  "lit ''Source Program'' \<noteq> lit ''Key''"
  "lit ''Source Program'' \<noteq> lit ''Composers''"
  "lit ''Source Program'' \<noteq> lit ''Publishers''"
  "lit ''BPM'' \<noteq> lit ''Key''"
  "lit ''BPM'' \<noteq> lit ''Composers''"
  "lit ''BPM'' \<noteq> lit ''Publishers''"
  "lit ''Key'' \<noteq> lit ''Composers''"
  "lit ''Key'' \<noteq> lit ''Publishers''"
  "lit ''Composers'' \<noteq> lit ''Publishers''"
  by (simp_all add: lit_def)

lemma update_entry_find:
  assumes "file_info (lit ''Uploaded Audio'') = Some uploaded"
  shows "update_entry lower ms file_info =
     Inr ((case find (filename_matches lower (lower uploaded)) ms of
             None \<Rightarrow> (\<lambda>e. e)
           | Some m \<Rightarrow> (\<lambda>e. e(lit ''Filename From Data'' \<mapsto> filename_from_data m)))
          ((case find (title_matches lower (lower uploaded)) ms of
             None \<Rightarrow> (\<lambda>e. e) | Some m \<Rightarrow> fill_fields m) (reset_fields file_info)))"
  using assms
  by (simp add: update_entry_def Let_def find_by_pattern_find find_by_filename_find
        split: option.splits)

lemma blank_reset: "blank_fields (reset_fields e)"
  using keys_distinct by (simp add: blank_fields_def reset_fields_def)

lemma fields_fill: "fields_of m (fill_fields m e)"
  using keys_distinct by (simp add: fields_of_def fill_fields_def)

lemma blank_upd: "blank_fields e \<Longrightarrow> blank_fields (e(lit ''Filename From Data'' \<mapsto> v))"
  using keys_distinct by (simp add: blank_fields_def)

lemma fields_upd: "fields_of m e \<Longrightarrow> fields_of m (e(lit ''Filename From Data'' \<mapsto> v))"
  using keys_distinct by (simp add: fields_of_def)

lemma name_reset: "reset_fields e (lit ''Filename From Data'') = e (lit ''Filename From Data'')"
  using keys_distinct by (simp add: reset_fields_def)

lemma name_fill: "fill_fields m e (lit ''Filename From Data'') = e (lit ''Filename From Data'')"
  using keys_distinct by (simp add: fill_fields_def)


lemma song_file_name: "song_file (lit ''Uploaded Audio'') = Some (lit ''Song_Master.wav'')"
  by (simp add: song_file_def lit_def)

lemma song_matches:
  "\<not> title_matches ascii_lower (ascii_lower (lit ''Song_Master.wav'')) record_by_name"
  "title_matches ascii_lower (ascii_lower (lit ''Song_Master.wav'')) record_by_title"
  "filename_matches ascii_lower (ascii_lower (lit ''Song_Master.wav'')) record_by_name"
  "\<not> filename_matches ascii_lower (ascii_lower (lit ''Song_Master.wav'')) record_by_title"
  by (simp_all add: title_matches_def filename_matches_def ascii_lower_def lit_def
        record_by_name_def record_by_title_def)


text \<open>
  C9: for a file entry with the name \<open>uploaded\<close>, the six metadata fields come from
  the first record, in record order, whose lower-cased title followed by "_" occurs
  in the lower-cased name; when no record matches they are all blank. Independently,
  "Filename From Data" comes from the first record whose lower-cased file name occurs
  in the lower-cased name, and is left as it was when no record matches. The two
  lookups can select different records, as they do for \<open>song_file\<close>.
\<close>

theorem first_match_wins:
  assumes "file_info (lit ''Uploaded Audio'') = Some uploaded"
  shows "\<exists>e. update_entry lower ms file_info = Inr e \<and>
     (\<forall>pre m post. ms = pre @ m # post \<and>
         (\<forall>r \<in> set pre. \<not> title_matches lower (lower uploaded) r) \<and>
         title_matches lower (lower uploaded) m \<longrightarrow> fields_of m e) \<and>
     ((\<forall>r \<in> set ms. \<not> title_matches lower (lower uploaded) r) \<longrightarrow> blank_fields e) \<and>
     (\<forall>pre m post. ms = pre @ m # post \<and>
         (\<forall>r \<in> set pre. \<not> filename_matches lower (lower uploaded) r) \<and>
         filename_matches lower (lower uploaded) m \<longrightarrow>
         e (lit ''Filename From Data'') = Some (filename_from_data m)) \<and>
     ((\<forall>r \<in> set ms. \<not> filename_matches lower (lower uploaded) r) \<longrightarrow>
         e (lit ''Filename From Data'') = file_info (lit ''Filename From Data''))"
proof -
  let ?T = "title_matches lower (lower uploaded)"
  let ?F = "filename_matches lower (lower uploaded)"
  define e1 where "e1 = (case find ?T ms of None \<Rightarrow> (\<lambda>e. e) | Some m \<Rightarrow> fill_fields m)
                          (reset_fields file_info)"
  define e where "e = (case find ?F ms of None \<Rightarrow> (\<lambda>e. e)
           | Some m \<Rightarrow> (\<lambda>e. e(lit ''Filename From Data'' \<mapsto> filename_from_data m))) e1"
  have u: "update_entry lower ms file_info = Inr e"
    unfolding e_def e1_def by (rule update_entry_find[of file_info uploaded lower ms, OF assms])
  have e1_name: "e1 (lit ''Filename From Data'') = file_info (lit ''Filename From Data'')"
    by (simp add: e1_def name_reset name_fill split: option.splits)
  have keep_blank: "blank_fields e1 \<Longrightarrow> blank_fields e"
    by (simp add: e_def blank_upd split: option.splits)
  have keep_fields: "\<And>m. fields_of m e1 \<Longrightarrow> fields_of m e"
    by (simp add: e_def fields_upd split: option.splits)
  have a: "fields_of m e"
    if "ms = pre @ m # post" "\<forall>r \<in> set pre. \<not> ?T r" "?T m" for pre m post
  proof -
    from that have "find ?T ms = Some m" by (simp add: find_first)
    then have "e1 = fill_fields m (reset_fields file_info)" by (simp add: e1_def)
    then show ?thesis by (simp add: keep_fields fields_fill)
  qed
  have b: "blank_fields e" if "\<forall>r \<in> set ms. \<not> ?T r"
  proof -
    from that have "find ?T ms = None" by (simp add: find_None_iff)
    then have "e1 = reset_fields file_info" by (simp add: e1_def)
    then show ?thesis by (simp add: keep_blank blank_reset)
  qed
  have c: "e (lit ''Filename From Data'') = Some (filename_from_data m)"
    if "ms = pre @ m # post" "\<forall>r \<in> set pre. \<not> ?F r" "?F m" for pre m post
  proof -
    from that have "find ?F ms = Some m" by (simp add: find_first)
    then show ?thesis by (simp add: e_def)
  qed
  have d: "e (lit ''Filename From Data'') = file_info (lit ''Filename From Data'')"
    if "\<forall>r \<in> set ms. \<not> ?F r"
  proof -
    from that have "find ?F ms = None" by (simp add: find_None_iff)
    then show ?thesis by (simp add: e_def e1_name)
  qed
  show ?thesis
  proof (intro exI[of _ e] conjI allI impI)
    show "update_entry lower ms file_info = Inr e" by (rule u)
  next
    fix pre m post
    assume "ms = pre @ m # post \<and> (\<forall>r \<in> set pre. \<not> ?T r) \<and> ?T m"
    then show "fields_of m e" using a[of pre m post] by simp
  next
    assume "\<forall>r \<in> set ms. \<not> ?T r"
    then show "blank_fields e" by (rule b)
  next
    fix pre m post
    assume "ms = pre @ m # post \<and> (\<forall>r \<in> set pre. \<not> ?F r) \<and> ?F m"
    then show "e (lit ''Filename From Data'') = Some (filename_from_data m)"
      using c[of pre m post] by simp
  next
    assume "\<forall>r \<in> set ms. \<not> ?F r"
    then show "e (lit ''Filename From Data'') = file_info (lit ''Filename From Data'')"
      by (rule d)
  qed
qed


theorem first_match_wins_witness:
  "\<exists>e. update_entry ascii_lower [record_by_name, record_by_title] song_file = Inr e \<and>
       fields_of record_by_title e \<and>
       e (lit ''Filename From Data'') = Some (filename_from_data record_by_name)"
proof -
  let ?T = "title_matches ascii_lower (ascii_lower (lit ''Song_Master.wav''))"
  let ?F = "filename_matches ascii_lower (ascii_lower (lit ''Song_Master.wav''))"
  let ?ms = "[record_by_name, record_by_title]"
  from first_match_wins [of song_file "lit ''Song_Master.wav''" ascii_lower ?ms,
         OF song_file_name]
  obtain e where u: "update_entry ascii_lower ?ms song_file = Inr e"
    and t: "\<forall>pre m post. ?ms = pre @ m # post \<and> (\<forall>r \<in> set pre. \<not> ?T r) \<and> ?T m
              \<longrightarrow> fields_of m e"
    and f: "\<forall>pre m post. ?ms = pre @ m # post \<and> (\<forall>r \<in> set pre. \<not> ?F r) \<and> ?F m
              \<longrightarrow> e (lit ''Filename From Data'') = Some (filename_from_data m)"
    by (elim exE conjE)
  have "?ms = [record_by_name] @ record_by_title # [] \<and>
        (\<forall>r \<in> set [record_by_name]. \<not> ?T r) \<and> ?T record_by_title"
    by (simp add: song_matches)
  then have 1: "fields_of record_by_title e"
    by (rule t[THEN spec[of _ "[record_by_name]"], THEN spec[of _ record_by_title],
                THEN spec[of _ "[]"], THEN mp])
  have "?ms = [] @ record_by_name # [record_by_title] \<and>
        (\<forall>r \<in> set []. \<not> ?F r) \<and> ?F record_by_name"
    by (simp add: song_matches)
  then have 2: "e (lit ''Filename From Data'') = Some (filename_from_data record_by_name)"
    by (rule f[THEN spec[of _ "[]"], THEN spec[of _ record_by_name],
                THEN spec[of _ "[record_by_title]"], THEN mp])
  from u 1 2 show ?thesis by (intro exI[of _ e] conjI)
qed


lemma ascii_lower_Nil: "ascii_lower [] = []"
  by (simp add: ascii_lower_def)

lemma ascii_lower_underscore: "95 \<in> set s \<Longrightarrow> 95 \<in> set (ascii_lower s)"
  by (force simp: ascii_lower_def)

lemma find_by_pattern_shadow:
  assumes "title_matches lower fn m"
  shows "find_by_pattern lower (pre @ m # post) fn e = find_by_pattern lower (pre @ [m]) fn e"
proof (induction pre)
  case Nil
  from assms show ?case by (simp add: find_by_pattern_find)
next
  case (Cons a pre)
  then show ?case by (simp add: find_by_pattern_find)
qed

lemma find_by_filename_shadow:
  assumes "filename_matches lower fn m"
  shows "find_by_filename lower (pre @ m # post) fn e = find_by_filename lower (pre @ [m]) fn e"
proof (induction pre)
  case Nil
  from assms show ?case by (simp add: find_by_filename_find)
next
  case (Cons a pre)
  then show ?case by (simp add: find_by_filename_find)
qed


text \<open>
  C10: when \<open>lower\<close> maps the empty string to itself and keeps "_" (as
  \<open>str.lower\<close> does), a record with an empty title matches every file name that
  holds an underscore, and a record with an empty file name matches every file name.
  A record that matches hides every record after it: the loops give the same result
  whatever follows it.
\<close>

theorem empty_fields_match_and_shadow:
  assumes "lower [] = []"
    and "\<And>s. 95 \<in> set s \<Longrightarrow> 95 \<in> set (lower s)"
  shows "(track_title m = [] \<and> 95 \<in> set uploaded \<longrightarrow>
            title_matches lower (lower uploaded) m) \<and>
         (filename_from_data m = [] \<longrightarrow> filename_matches lower (lower uploaded) m) \<and>
         (title_matches lower (lower uploaded) m \<longrightarrow>
            find_by_pattern lower (pre @ m # post) (lower uploaded) e =
              find_by_pattern lower (pre @ [m]) (lower uploaded) e) \<and>
         (filename_matches lower (lower uploaded) m \<longrightarrow>
            find_by_filename lower (pre @ m # post) (lower uploaded) e =
              find_by_filename lower (pre @ [m]) (lower uploaded) e) \<and>
         (track_title m = [] \<and> 95 \<in> set uploaded \<longrightarrow>
            find_by_pattern lower (m # post) (lower uploaded) e = fill_fields m e) \<and>
         (filename_from_data m = [] \<longrightarrow>
            find_by_filename lower (m # post) (lower uploaded) e =
              e(lit ''Filename From Data'' \<mapsto> []))"
proof -
  have u: "lit ''_'' = [95]" by (simp add: lit_def)
  have 1: "title_matches lower (lower uploaded) m" if "track_title m = [] \<and> 95 \<in> set uploaded"
    using that assms by (simp add: title_matches_def u contains_single)
  have 2: "filename_matches lower (lower uploaded) m" if "filename_from_data m = []"
    using that assms(1) by (simp add: filename_matches_def contains_Nil)
  have 3: "find_by_pattern lower (m # post) (lower uploaded) e = fill_fields m e"
    if "track_title m = [] \<and> 95 \<in> set uploaded"
    using 1[OF that] by (simp add: find_by_pattern_find)
  have 4: "find_by_filename lower (m # post) (lower uploaded) e =
              e(lit ''Filename From Data'' \<mapsto> [])"
    if "filename_from_data m = []"
    using 2[OF that] that by (simp add: find_by_filename_find)
  show ?thesis
  proof (intro conjI impI)
    assume "track_title m = [] \<and> 95 \<in> set uploaded"
    then show "title_matches lower (lower uploaded) m" by (rule 1)
  next
    assume "filename_from_data m = []"
    then show "filename_matches lower (lower uploaded) m" by (rule 2)
  next
    assume "title_matches lower (lower uploaded) m"
    then show "find_by_pattern lower (pre @ m # post) (lower uploaded) e =
                 find_by_pattern lower (pre @ [m]) (lower uploaded) e"
      by (rule find_by_pattern_shadow)
  next
    assume "filename_matches lower (lower uploaded) m"
    then show "find_by_filename lower (pre @ m # post) (lower uploaded) e =
                 find_by_filename lower (pre @ [m]) (lower uploaded) e"
      by (rule find_by_filename_shadow)
  next
    assume "track_title m = [] \<and> 95 \<in> set uploaded"
    then show "find_by_pattern lower (m # post) (lower uploaded) e = fill_fields m e"
      by (rule 3)
  next
    assume "filename_from_data m = []"
    then show "find_by_filename lower (m # post) (lower uploaded) e =
                 e(lit ''Filename From Data'' \<mapsto> [])"
      by (rule 4)
  qed
qed


theorem empty_fields_match_and_shadow_witness:
  "title_matches ascii_lower (ascii_lower (lit ''Song_Master.wav'')) blank_record \<and>
   filename_matches ascii_lower (ascii_lower (lit ''Song_Master.wav'')) blank_record \<and>
   find_by_pattern ascii_lower (blank_record # [record_by_title])
       (ascii_lower (lit ''Song_Master.wav'')) song_file = fill_fields blank_record song_file \<and>
   find_by_filename ascii_lower (blank_record # [record_by_name])
       (ascii_lower (lit ''Song_Master.wav'')) song_file =
     song_file(lit ''Filename From Data'' \<mapsto> [])"
proof -
  have a: "track_title blank_record = [] \<and> 95 \<in> set (lit ''Song_Master.wav'')"
    by (simp add: blank_record_def lit_def)
  have b: "filename_from_data blank_record = []" by (simp add: blank_record_def)
  note t = empty_fields_match_and_shadow
             [where lower = ascii_lower and m = blank_record
                and uploaded = "lit ''Song_Master.wav''" and e = song_file,
              OF ascii_lower_Nil ascii_lower_underscore]
  from t[where post = "[record_by_title]"] a b
  have 1: "title_matches ascii_lower (ascii_lower (lit ''Song_Master.wav'')) blank_record"
    and 2: "filename_matches ascii_lower (ascii_lower (lit ''Song_Master.wav'')) blank_record"
    and 3: "find_by_pattern ascii_lower (blank_record # [record_by_title])
       (ascii_lower (lit ''Song_Master.wav'')) song_file = fill_fields blank_record song_file"
    by blast+
  from t[where post = "[record_by_name]"] b
  have 4: "find_by_filename ascii_lower (blank_record # [record_by_name])
       (ascii_lower (lit ''Song_Master.wav'')) song_file =
     song_file(lit ''Filename From Data'' \<mapsto> [])"
    by blast
  from 1 2 3 4 show ?thesis by (intro conjI)
qed

end
